theory Spec2Isabelle
  imports Complex_Main "HOL-Library.Log_Nat"
begin

section \<open>Python values\<close>

text \<open>
  The accounting application is Python 3 on Django. Three kinds of Python values matter
  for the properties below: exceptions, floats and the strings produced by
  \<^verbatim>\<open>"{}%".format(n)\<close>.

  An exception that leaves a model method or a view is a value of \<open>py_error\<close>.
\<close>

datatype py_error =
    ZeroDivisionError
  | KeyError
  | AttributeError
  | IntegrityError
  | NoReverseMatch
  | TypeError
  | CaptureError

subsection \<open>Floats\<close>

text \<open>
  A Python float is an IEEE 754 binary64 number. A finite float is modelled by the
  rational number it denotes, and every operation rounds its exact result to the nearest
  float, ties to the even significand, as the hardware does. \<open>fl\<close> is that rounding:
  53 significant bits, exponents down to the subnormal range. Overflow to infinity is
  outside the model (amounts of money stay far below \<open>2 ^ 1024\<close>).
\<close>

type_synonym pyfloat = rat

definition pow2 :: "int \<Rightarrow> rat" where
  "pow2 e = (if 0 \<le> e then 2 ^ nat e else 1 / 2 ^ nat (- e))"

definition round_half_even :: "rat \<Rightarrow> int" where
  "round_half_even x =
     (let f = \<lfloor>x\<rfloor>; r = x - of_int f
      in if r < 1 / 2 then f
         else if 1 / 2 < r then f + 1
         else if even f then f else f + 1)"

text \<open>\<open>ilog2 x\<close> is the binary exponent of a positive \<open>x\<close>: \<open>2 ^ e \<le> x < 2 ^ (e + 1)\<close>.\<close>

definition ilog2 :: "rat \<Rightarrow> int" where
  "ilog2 x =
     (let (a, b) = quotient_of x; e = bitlen a - bitlen b
      in if pow2 e \<le> x then e else e - 1)"

definition fl :: "rat \<Rightarrow> pyfloat" where
  "fl x =
     (if x = 0 then 0
      else let m = \<bar>x\<bar>; e = max (ilog2 m) (- 1022); u = pow2 (e - 52)
           in sgn x * of_int (round_half_even (m / u)) * u)"

definition fmul :: "pyfloat \<Rightarrow> pyfloat \<Rightarrow> pyfloat" where
  "fmul a b = fl (a * b)"

definition fsub :: "pyfloat \<Rightarrow> pyfloat \<Rightarrow> pyfloat" where
  "fsub a b = fl (a - b)"

text \<open>True division; the callers test for a zero divisor first, as Python raises there.\<close>

definition fdiv :: "pyfloat \<Rightarrow> pyfloat \<Rightarrow> pyfloat" where
  "fdiv a b = fl (a / b)"

text \<open>
  \<^verbatim>\<open>round(x, 2)\<close> on a float: CPython rounds the exact value of \<open>x\<close> to two decimals
  (ties to even) and returns the float nearest to that decimal.
\<close>

definition py_round2 :: "pyfloat \<Rightarrow> pyfloat" where
  "py_round2 x = fl (of_int (round_half_even (x * 100)) / 100)"

text \<open>\<^verbatim>\<open>int(x)\<close> truncates towards zero.\<close>

definition py_int :: "pyfloat \<Rightarrow> int" where
  "py_int x = (if 0 \<le> x then \<lfloor>x\<rfloor> else \<lceil>x\<rceil>)"

subsection \<open>Formatting an integer\<close>

definition digit_char :: "nat \<Rightarrow> char" where
  "digit_char n = ''0123456789'' ! n"

fun str_nat :: "nat \<Rightarrow> string" where
  "str_nat n = (if n < 10 then [digit_char n] else str_nat (n div 10) @ [digit_char (n mod 10)])"

declare str_nat.simps [simp del]

definition str_int :: "int \<Rightarrow> string" where
  "str_int i = (if i < 0 then CHR ''-'' # str_nat (nat (- i)) else str_nat (nat i))"

text \<open>\<^verbatim>\<open>s.endswith(suffix)\<close>\<close>

definition endswith :: "string \<Rightarrow> string \<Rightarrow> bool" where
  "endswith s suf = (length suf \<le> length s \<and> drop (length s - length suf) s = suf)"

section \<open>Data model (models.py)\<close>

text \<open>
  Rows carry their primary key. A foreign key to a row that the code only reads
  (payment method, coupon code, site) is stored as the row it points to. Prices are
  decimal columns, modelled by rationals; the percentages of a coupon code are float
  columns.
\<close>

record payment_method =
  pm_name :: string
  pm_variant :: string

record coupon_code =
  cc_code :: string
  cc_discount :: pyfloat
  cc_commission :: pyfloat

datatype service_type = SOCIAL_PROFILES | REPUTATION_CASE

record order =
  ord_pk :: nat
  ord_user :: nat
  ord_service_type :: service_type
  ord_items :: "nat list"
  ord_payment_method :: payment_method
  ord_coupon_code :: "coupon_code option"

text \<open>
  \<open>Payment\<close> extends django-payments' \<open>BasePayment\<close>, whose columns used here are the
  token, the total, the currency, the variant and the status (a string such as
  \<open>''waiting''\<close> or \<open>''confirmed''\<close>). \<open>pay_order\<close> is the one-to-one key to the order.
\<close>

record payment =
  pay_pk :: nat
  pay_token :: string
  pay_order :: nat
  pay_total :: pyfloat
  pay_currency :: string
  pay_variant :: string
  pay_status :: string

text \<open>
  The catalog rows live in other applications of the repository; the code under
  verification names these columns and these status constants of them.
\<close>

record site =
  site_name :: string
  site_price :: rat

datatype sp_status =
    REQUESTED_CREATION_UNPAID
  | REQUESTED_CREATION_PAID
  | CREATED
  | FAILED
  | SP_OTHER nat

record social_profile =
  sp_pk :: nat
  sp_user :: nat
  sp_status :: sp_status
  sp_site :: site
  sp_username :: string
  sp_email :: nat

datatype rc_status = OPEN_UNPAID | OPEN_PAID | RC_OTHER nat

record reputation_case =
  rc_pk :: nat
  rc_status :: rc_status
  rc_price :: rat

record gmail_account =
  gm_pk :: nat
  gm_user :: "nat option"
  gm_email :: string

text \<open>The database: one list of rows per table, and the users whose progress row has
  \<open>made_an_order\<close> set.\<close>

record db =
  orders :: "order list"
  payments :: "payment list"
  social_profiles :: "social_profile list"
  reputation_cases :: "reputation_case list"
  gmail_accounts :: "gmail_account list"
  made_an_order :: "nat list"

text \<open>An auto-increment primary key: one more than the largest key of the table.\<close>

definition next_pk :: "nat list \<Rightarrow> nat" where
  "next_pk pks = Suc (fold max pks 0)"

subsection \<open>Order\<close>

text \<open>
  \<^verbatim>\<open>get_items\<close>: \<^verbatim>\<open>Model.objects.filter(pk__in=self.items)\<close>, on the table the service type
  selects. The two tables have different row types, so each has its own query.
\<close>

definition get_items_sp :: "db \<Rightarrow> order \<Rightarrow> social_profile list" where
  "get_items_sp d ord = filter (\<lambda>r. sp_pk r \<in> set (ord_items ord)) (social_profiles d)"

definition get_items_rc :: "db \<Rightarrow> order \<Rightarrow> reputation_case list" where
  "get_items_rc d ord = filter (\<lambda>r. rc_pk r \<in> set (ord_items ord)) (reputation_cases d)"

text \<open>\<^verbatim>\<open>discount\<close>: \<^verbatim>\<open>self.coupon_code.discount if self.coupon_code else 0\<close>\<close>

definition discount :: "order \<Rightarrow> pyfloat" where
  "discount ord = (case ord_coupon_code ord of Some c \<Rightarrow> cc_discount c | None \<Rightarrow> 0)"

text \<open>SQL \<open>SUM\<close> over a query set: \<open>NULL\<close> (Python \<open>None\<close>) when there is no row.\<close>

definition aggregate_Sum :: "rat list \<Rightarrow> rat option" where
  "aggregate_Sum xs = (if xs = [] then None else Some (sum_list xs))"

text \<open>
  \<^verbatim>\<open>calculate_total\<close>, first lines: the aggregate over the items' price column
  (\<^verbatim>\<open>site__price\<close> or \<^verbatim>\<open>price\<close>), where \<^verbatim>\<open>... .get("total") or 0.0\<close> replaces \<open>None\<close> and a
  zero sum by \<open>0.0\<close>; then \<^verbatim>\<open>total = float(total)\<close>.
\<close>

definition items_sum :: "db \<Rightarrow> order \<Rightarrow> rat" where
  "items_sum d ord =
     (let agg = (if ord_service_type ord = SOCIAL_PROFILES
                 then aggregate_Sum (map (\<lambda>r. site_price (sp_site r)) (get_items_sp d ord))
                 else aggregate_Sum (map rc_price (get_items_rc d ord)))
      in case agg of None \<Rightarrow> 0 | Some t \<Rightarrow> if t = 0 then 0 else t)"

definition items_total :: "db \<Rightarrow> order \<Rightarrow> pyfloat" where
  "items_total d ord = fl (items_sum d ord)"

text \<open>
  \<^verbatim>\<open>calculate_total\<close>, the rest. \<^verbatim>\<open>self.discount and include_discount\<close> is true when
  the discount is non-zero and the flag is set; the factor is
  \<^verbatim>\<open>1 - self.discount / 100.\<close> then, and \<open>1\<close> otherwise; the product is rounded to two
  decimals.
\<close>

definition calculate_total :: "db \<Rightarrow> order \<Rightarrow> bool \<Rightarrow> pyfloat" where
  "calculate_total d ord include_discount =
     (let total = items_total d ord;
          do_calc_discount = (discount ord \<noteq> 0 \<and> include_discount);
          total = fmul total (if do_calc_discount then fsub 1 (fdiv (discount ord) 100) else 1)
      in py_round2 total)"

text \<open>\<^verbatim>\<open>has_payment\<close>: \<^verbatim>\<open>Payment.objects.filter(order=self).exists()\<close>\<close>

definition has_payment :: "db \<Rightarrow> order \<Rightarrow> bool" where
  "has_payment d ord = (\<exists>p \<in> set (payments d). pay_order p = ord_pk ord)"

text \<open>
  \<^verbatim>\<open>order_progress\<close>. Evaluating the property raises \<open>ZeroDivisionError\<close> at
  \<^verbatim>\<open>created_count / total_count\<close> when the query set is empty, and falls off the end
  (returning \<open>None\<close>) for an order of the other service type.
\<close>

record progress_info =
  pi_created :: nat
  pi_total :: nat
  pi_progress :: string

definition order_progress :: "db \<Rightarrow> order \<Rightarrow> py_error + progress_info option" where
  "order_progress d ord =
     (if ord_service_type ord = SOCIAL_PROFILES then
        let items = get_items_sp d ord;
            total_count = length items;
            created_count = length (filter (\<lambda>r. sp_status r \<in> {CREATED, FAILED}) items)
        in if total_count = 0 then Inl ZeroDivisionError
           else
             let progress = fmul (py_round2 (fdiv (of_nat created_count) (of_nat total_count))) 100;
                 progress = py_int progress
             in Inr (Some \<lparr>pi_created = created_count, pi_total = total_count,
                            pi_progress = str_int progress @ ''%''\<rparr>)
      else Inr None)"

text \<open>
  The last steps of \<^verbatim>\<open>order_progress\<close> on a ratio that \<^verbatim>\<open>round\<close> has brought to \<open>k\<close>
  hundredths: \<^verbatim>\<open>int(... * 100)\<close>. They give \<open>k\<close> back unless the float product falls
  below \<open>k\<close>, which \<^verbatim>\<open>int\<close> then truncates to \<open>k - 1\<close>.
\<close>

definition percent_survives :: "int \<Rightarrow> bool" where
  "percent_survives k = (py_int (fmul (fl (of_int k / 100)) 100) = k)"

subsection \<open>Creating the payment\<close>

text \<open>
  \<^verbatim>\<open>Payment.objects.create(variant=..., order=..., total=..., currency=...)\<close> is the
  storage layer. \<open>Payment.order\<close> is a \<open>OneToOneField\<close>: its unique index rejects a second
  row for the same order with \<open>IntegrityError\<close> and writes nothing. \<open>Payment.save\<close>
  overwrites the variant with the one of the order's payment method; the token is drawn
  at random by \<open>BasePayment\<close> and is an input here; a new payment is \<open>''waiting''\<close>.
\<close>

type_synonym payment_create =
  "db \<Rightarrow> string \<Rightarrow> order \<Rightarrow> pyfloat \<Rightarrow> string \<Rightarrow> string \<Rightarrow> (py_error + payment) \<times> db"

definition new_payment :: "db \<Rightarrow> order \<Rightarrow> pyfloat \<Rightarrow> string \<Rightarrow> string \<Rightarrow> payment" where
  "new_payment d ord tot currency token =
     \<lparr>pay_pk = next_pk (map pay_pk (payments d)), pay_token = token, pay_order = ord_pk ord,
      pay_total = tot, pay_currency = currency,
      pay_variant = pm_variant (ord_payment_method ord), pay_status = ''waiting''\<rparr>"

definition Payment_objects_create :: payment_create where
  "Payment_objects_create d variant ord tot currency token =
     (if \<exists>p \<in> set (payments d). pay_order p = ord_pk ord then (Inl IntegrityError, d)
      else let p = new_payment d ord tot currency token
           in (Inr p, d\<lparr>payments := payments d @ [p]\<rparr>))"

text \<open>
  \<^verbatim>\<open>create_payment\<close>, with the manager it calls as a parameter.
  \<^verbatim>\<open>float(amount) if amount else self.calculate_total(False)\<close>: an amount of \<open>None\<close> and
  an amount of zero are both false; \<^verbatim>\<open>if self.discount: total *= 1 - self.discount / 100.\<close>
\<close>

definition create_payment_with ::
  "payment_create \<Rightarrow> db \<Rightarrow> order \<Rightarrow> rat option \<Rightarrow> string \<Rightarrow> (py_error + payment) \<times> db" where
  "create_payment_with objects_create d ord amount token =
     (let total = (case amount of
                     None \<Rightarrow> calculate_total d ord False
                   | Some a \<Rightarrow> if a \<noteq> 0 then fl a else calculate_total d ord False);
          total = (if discount ord \<noteq> 0 then fmul total (fsub 1 (fdiv (discount ord) 100))
                   else total)
      in objects_create d (pm_variant (ord_payment_method ord)) ord total ''USD'' token)"

definition create_payment ::
  "db \<Rightarrow> order \<Rightarrow> rat option \<Rightarrow> string \<Rightarrow> (py_error + payment) \<times> db" where
  "create_payment = create_payment_with Payment_objects_create"


section \<open>Views (views.py)\<close>

datatype url = LoginUrl | PaymentOverviewUrl nat string | OrderOverviewUrl nat

datatype response =
    Redirect url
  | Render string
  | JsonResponse progress_info
  | HttpResponseBadRequest
  | Http404
  | ServerError py_error

text \<open>
  The session: the serialized profile data, the checkout info (a dict with the keys
  \<open>is_blocked\<close> and \<open>payment_url\<close>, each present or not) and the cart of the carton
  library, whose lines hold the product, its price at the time it was added and a
  quantity.
\<close>

record checkout_info =
  ci_is_blocked :: "bool option"
  ci_payment_url :: "url option"

record order_site =
  os_pk :: nat
  os_site :: site
  os_available_username :: string

record cart_item =
  item_product :: order_site
  item_price :: rat
  item_quantity :: nat

record session =
  PROFILE_DATA :: "string option"
  CHECKOUT_INFO :: "checkout_info option"
  CART :: "cart_item list"

datatype level = INFO | WARNING

text \<open>The world a view runs in: the database, the session of the browser, the work queue
  of \<^verbatim>\<open>run_worker.apply_async\<close> and the messages shown to the user.\<close>

record world =
  w_db :: db
  w_session :: session
  w_queue :: "nat list"
  w_messages :: "(level \<times> string) list"

text \<open>A request: the logged-in user, whether \<^verbatim>\<open>request.POST\<close> is non-empty, the cleaned
  data of the order form when the form validates, and whether the request is AJAX.\<close>

record order_form =
  form_payment_method :: payment_method
  form_coupon_code :: "coupon_code option"

record request =
  req_user :: "nat option"
  req_POST :: bool
  req_order_form :: "order_form option"
  req_is_ajax :: bool

text \<open>What a request draws from its environment: the \<open>DEBUG\<close> setting, the token of a
  payment it creates, and the address of a mailbox that \<open>mixer\<close> blends.\<close>

record env =
  DEBUG :: bool
  fresh_token :: string
  blended_email :: string

definition cart_products :: "session \<Rightarrow> order_site list" where
  "cart_products s = map item_product (CART s)"

definition cart_total :: "session \<Rightarrow> rat" where
  "cart_total s = sum_list (map (\<lambda>i. item_price i * of_nat (item_quantity i)) (CART s))"

definition cart_clear :: "session \<Rightarrow> session" where
  "cart_clear s = s\<lparr>CART := []\<rparr>"

definition empty_dict :: checkout_info where
  "empty_dict = \<lparr>ci_is_blocked = None, ci_payment_url = None\<rparr>"

subsection \<open>cart\_checkout\<close>

text \<open>
  The mailbox: with \<open>DEBUG\<close> a blended one; otherwise the first free \<open>pokemail.net\<close>
  account, which is given to the user. When there is none, \<^verbatim>\<open>.first()\<close> is \<open>None\<close> and
  \<^verbatim>\<open>email.user = request.user\<close> raises \<open>AttributeError\<close>.
\<close>

definition assign_email :: "env \<Rightarrow> nat \<Rightarrow> db \<Rightarrow> py_error + (nat \<times> db)" where
  "assign_email e user d =
     (if DEBUG e then
        let acc = \<lparr>gm_pk = next_pk (map gm_pk (gmail_accounts d)), gm_user = None,
                   gm_email = blended_email e\<rparr>
        in Inr (gm_pk acc, d\<lparr>gmail_accounts := gmail_accounts d @ [acc]\<rparr>)
      else
        case find (\<lambda>a. gm_user a = None \<and> endswith (gm_email a) ''pokemail.net'')
                  (gmail_accounts d) of
          None \<Rightarrow> Inl AttributeError
        | Some a \<Rightarrow>
            Inr (gm_pk a,
                 d\<lparr>gmail_accounts :=
                     map (\<lambda>b. if gm_pk b = gm_pk a then b\<lparr>gm_user := Some user\<rparr> else b)
                         (gmail_accounts d)\<rparr>))"

text \<open>The loop over the cart's products: one unpaid profile per product, added to the
  order that is not saved yet.\<close>

fun create_profiles :: "nat \<Rightarrow> nat \<Rightarrow> order_site list \<Rightarrow> db \<times> order \<Rightarrow> db \<times> order" where
  "create_profiles user email [] (d, ord) = (d, ord)"
| "create_profiles user email (os # rest) (d, ord) =
     (let profile = \<lparr>sp_pk = next_pk (map sp_pk (social_profiles d)), sp_user = user,
                      sp_status = REQUESTED_CREATION_UNPAID, sp_site = os_site os,
                      sp_username = os_available_username os, sp_email = email\<rparr>
      in create_profiles user email rest
           (d\<lparr>social_profiles := social_profiles d @ [profile]\<rparr>,
            ord\<lparr>ord_items := ord_items ord @ [sp_pk profile]\<rparr>))"

text \<open>
  The part of \<^verbatim>\<open>cart_checkout\<close> after the block check. Each \<^verbatim>\<open>save\<close> and \<^verbatim>\<open>create\<close> is its
  own write, so an exception leaves the rows written before it; the session is written
  only at the end. The unsaved order has no key (\<open>0\<close> here); \<^verbatim>\<open>order.save()\<close> gives it
  one. The bookkeeping of \<^verbatim>\<open>user_search\<close> touches a table that no property below
  reads and is left out.
\<close>

definition checkout_create :: "env \<Rightarrow> nat \<Rightarrow> order_form \<Rightarrow> world \<Rightarrow> response \<times> world" where
  "checkout_create e user form w =
     (case PROFILE_DATA (w_session w) of
        None \<Rightarrow> (ServerError KeyError, w)
      | Some profile_data \<Rightarrow>
          (let order = \<lparr>ord_pk = 0, ord_user = user, ord_service_type = SOCIAL_PROFILES,
                        ord_items = [], ord_payment_method = form_payment_method form,
                        ord_coupon_code = form_coupon_code form\<rparr>;
               order_sites = cart_products (w_session w)
           in (case assign_email e user (w_db w) of
                 Inl err \<Rightarrow> (ServerError err, w)
               | Inr (email, d1) \<Rightarrow>
                   (let (d2, order) = create_profiles user email order_sites (d1, order);
                        order = order\<lparr>ord_pk := next_pk (map ord_pk (orders d2))\<rparr>;
                        d3 = d2\<lparr>orders := orders d2 @ [order]\<rparr>;
                        (res, d4) = create_payment d3 order (Some (cart_total (w_session w)))
                                      (fresh_token e)
                    in (case res of
                          Inl err \<Rightarrow> (ServerError err, w\<lparr>w_db := d4\<rparr>)
                        | Inr payment \<Rightarrow>
                            (let payment_url =
                                   PaymentOverviewUrl (pay_pk payment) (pay_token payment)
                             in (Redirect payment_url,
                                 w\<lparr>w_db := d4,
                                   w_session := (w_session w)
                                     \<lparr>CHECKOUT_INFO :=
                                        Some \<lparr>ci_is_blocked = Some True,
                                              ci_payment_url = Some payment_url\<rparr>\<rparr>\<rparr>)))))))"

text \<open>
  The block check of \<^verbatim>\<open>cart_checkout\<close>: \<^verbatim>\<open>request.session.get("CHECKOUT_INFO")\<close>, where
  an empty dict is false, then \<^verbatim>\<open>checkout_info.get("is_blocked", False)\<close>.
\<close>

definition is_blocked :: "session \<Rightarrow> bool" where
  "is_blocked s =
     (case CHECKOUT_INFO s of
        None \<Rightarrow> False
      | Some ci \<Rightarrow>
          if ci = empty_dict then False
          else (case ci_is_blocked ci of None \<Rightarrow> False | Some b \<Rightarrow> b))"

text \<open>
  \<^verbatim>\<open>cart_checkout\<close>: \<^verbatim>\<open>@login_required\<close>, then the form, then the block check. When
  blocked, \<^verbatim>\<open>redirect(checkout_info.get("payment_url"))\<close>; \<^verbatim>\<open>redirect(None)\<close> has no URL
  to resolve.
\<close>

definition cart_checkout :: "env \<Rightarrow> request \<Rightarrow> world \<Rightarrow> response \<times> world" where
  "cart_checkout e req w =
     (case req_user req of
        None \<Rightarrow> (Redirect LoginUrl, w)
      | Some user \<Rightarrow>
          (case (if req_POST req then req_order_form req else None) of
             None \<Rightarrow> (Render ''html/checkout.html'', w)
           | Some form \<Rightarrow>
               if is_blocked (w_session w) then
                 (case CHECKOUT_INFO (w_session w) of
                    None \<Rightarrow> (ServerError AttributeError, w)
                  | Some ci \<Rightarrow>
                      (case ci_payment_url ci of
                         None \<Rightarrow> (ServerError NoReverseMatch, w)
                       | Some u \<Rightarrow> (Redirect u, w)))
               else checkout_create e user form w))"

text \<open>The checkout form submitted several times in a row, each submission on the world
  the one before left.\<close>

fun run_checkouts :: "(env \<times> request) list \<Rightarrow> world \<Rightarrow> world" where
  "run_checkouts [] w = w"
| "run_checkouts ((e, req) # rest) w = run_checkouts rest (snd (cart_checkout e req w))"

text \<open>The foreign key of \<open>Payment.order\<close>: every payment points to a row of the orders
  table.\<close>

definition payments_have_orders :: "db \<Rightarrow> bool" where
  "payments_have_orders d =
     (\<forall>p \<in> set (payments d). \<exists>ord \<in> set (orders d). ord_pk ord = pay_order p)"

subsection \<open>payment\_success and payment\_failure\<close>

text \<open>
  \<^verbatim>\<open>get_object_or_404(Payment, pk=payment_id, token=payment_token,
  order__user=request.user)\<close>, together with the order the payment points to.
\<close>

definition get_payment_or_404 :: "db \<Rightarrow> nat \<Rightarrow> string \<Rightarrow> nat \<Rightarrow> (payment \<times> order) option" where
  "get_payment_or_404 d payment_id payment_token user =
     (case find (\<lambda>p. pay_pk p = payment_id \<and> pay_token p = payment_token \<and>
                      (\<exists>ord \<in> set (orders d). ord_pk ord = pay_order p \<and> ord_user ord = user))
                (payments d) of
        None \<Rightarrow> None
      | Some p \<Rightarrow>
          (case find (\<lambda>ord. ord_pk ord = pay_order p) (orders d) of
             None \<Rightarrow> None
           | Some ord \<Rightarrow> Some (p, ord)))"

definition set_payment_status :: "db \<Rightarrow> nat \<Rightarrow> string \<Rightarrow> db" where
  "set_payment_status d pk st =
     d\<lparr>payments := map (\<lambda>p. if pay_pk p = pk then p\<lparr>pay_status := st\<rparr> else p) (payments d)\<rparr>"

text \<open>
  The statements of \<^verbatim>\<open>payment_success\<close> that touch the catalog.
  \<^verbatim>\<open>list(payment.order.get_items().filter(status=unpaid).values_list("pk", flat=True))\<close>,
  \<^verbatim>\<open>SocialProfile.objects.filter(pk__in=social_profile_ids).update(status=...PAID)\<close>, and
  for a reputation order \<^verbatim>\<open>payment.order.get_items().filter(status=unpaid).update(status=paid)\<close>.
\<close>

definition unpaid_profile_ids :: "db \<Rightarrow> order \<Rightarrow> nat list" where
  "unpaid_profile_ids d ord =
     map sp_pk (filter (\<lambda>r. sp_status r = REQUESTED_CREATION_UNPAID) (get_items_sp d ord))"

definition mark_profiles_paid :: "nat list \<Rightarrow> db \<Rightarrow> db" where
  "mark_profiles_paid ids d =
     d\<lparr>social_profiles :=
         map (\<lambda>r. if sp_pk r \<in> set ids then r\<lparr>sp_status := REQUESTED_CREATION_PAID\<rparr> else r)
             (social_profiles d)\<rparr>"

definition mark_cases_paid :: "order \<Rightarrow> db \<Rightarrow> db" where
  "mark_cases_paid ord d =
     d\<lparr>reputation_cases :=
         map (\<lambda>r. if rc_pk r \<in> set (ord_items ord) \<and> rc_status r = OPEN_UNPAID
                   then r\<lparr>rc_status := OPEN_PAID\<rparr> else r)
             (reputation_cases d)\<rparr>"

text \<open>
  \<^verbatim>\<open>payment_success\<close>. \<^verbatim>\<open>payment.capture()\<close> is the gateway: it raises, or leaves the
  payment with a status, which it stores. The cart and the checkout info are reset
  for every payment of a social-profiles order, before \<open>confirmed\<close> is looked at. Each
  id of \<open>social_profile_ids\<close> goes to \<^verbatim>\<open>run_worker.apply_async\<close>, in order.
\<close>

definition payment_success ::
  "(payment \<Rightarrow> py_error + string) \<Rightarrow> request \<Rightarrow> nat \<Rightarrow> string \<Rightarrow> world \<Rightarrow> response \<times> world" where
  "payment_success capture req payment_id payment_token w =
     (case req_user req of
        None \<Rightarrow> (Redirect LoginUrl, w)
      | Some user \<Rightarrow>
          (case get_payment_or_404 (w_db w) payment_id payment_token user of
             None \<Rightarrow> (Http404, w)
           | Some (payment, order) \<Rightarrow>
               (case capture payment of
                  Inl err \<Rightarrow> (ServerError err, w)
                | Inr status \<Rightarrow>
                    let d = set_payment_status (w_db w) (pay_pk payment) status;
                        confirmed = (status = ''confirmed'');
                        s = (if ord_service_type order = SOCIAL_PROFILES
                             then (cart_clear (w_session w))\<lparr>CHECKOUT_INFO := Some empty_dict\<rparr>
                             else w_session w);
                        target = Redirect (OrderOverviewUrl (ord_pk order))
                    in if ord_service_type order = SOCIAL_PROFILES \<and> confirmed then
                         let social_profile_ids = unpaid_profile_ids d order;
                             d = mark_profiles_paid social_profile_ids d;
                             queue = w_queue w @ social_profile_ids;
                             d = (if user \<in> set (made_an_order d) then d
                                  else d\<lparr>made_an_order := user # made_an_order d\<rparr>)
                         in (target,
                             \<lparr>w_db = d, w_session = s, w_queue = queue,
                              w_messages = w_messages w @
                                [(INFO, ''Payment have been successfully processed!'')]\<rparr>)
                       else if ord_service_type order = REPUTATION_CASE \<and> confirmed then
                         (target,
                          \<lparr>w_db = mark_cases_paid order d, w_session = s, w_queue = w_queue w,
                           w_messages = w_messages w @
                             [(INFO, ''Payment have been successfully processed!'')]\<rparr>)
                       else
                         (target,
                          \<lparr>w_db = d, w_session = s, w_queue = w_queue w,
                           w_messages = w_messages w @ [(WARNING, ''Payment failed!'')]\<rparr>))))"

definition payment_failure :: "request \<Rightarrow> nat \<Rightarrow> string \<Rightarrow> world \<Rightarrow> response \<times> world" where
  "payment_failure req payment_id payment_token w =
     (case req_user req of
        None \<Rightarrow> (Redirect LoginUrl, w)
      | Some user \<Rightarrow>
          (case get_payment_or_404 (w_db w) payment_id payment_token user of
             None \<Rightarrow> (Http404, w)
           | Some (payment, order) \<Rightarrow>
               (Redirect (OrderOverviewUrl (ord_pk order)),
                w\<lparr>w_messages := w_messages w @ [(WARNING, ''Payment failed!'')],
                  w_session := (w_session w)\<lparr>CHECKOUT_INFO := Some empty_dict\<rparr>\<rparr>)))"

text \<open>The confirmation handler run several times in a row: each run has its own
  gateway answer, request, payment id and token.\<close>

fun run_confirmations ::
  "((payment \<Rightarrow> py_error + string) \<times> request \<times> nat \<times> string) list \<Rightarrow> world \<Rightarrow> world" where
  "run_confirmations [] w = w"
| "run_confirmations ((capture, req, payment_id, payment_token) # rest) w =
     run_confirmations rest (snd (payment_success capture req payment_id payment_token w))"

text \<open>
  The invariant of the work queue under the confirmation handler: primary keys are
  unique, no id is queued twice, and a profile whose id is queued is no longer in the
  unpaid state.
\<close>

definition dispatch_inv :: "social_profile list \<Rightarrow> nat list \<Rightarrow> bool" where
  "dispatch_inv rows queue =
     (distinct (map sp_pk rows) \<and> distinct queue \<and>
      (\<forall>r \<in> set rows. sp_pk r \<in> set queue \<longrightarrow> sp_status r \<noteq> REQUESTED_CREATION_UNPAID))"

subsection \<open>order\_progress\<close>

text \<open>
  The endpoint. \<open>get_perms\<close> is the permission backend. The view passes
  \<^verbatim>\<open>order.order_progress\<close> to \<open>JsonResponse\<close> with no handler around it, so an exception
  of the property is the server error of the request; \<open>JsonResponse\<close> refuses \<open>None\<close>.
\<close>

definition order_progress_view ::
  "(nat \<Rightarrow> order \<Rightarrow> string list) \<Rightarrow> request \<Rightarrow> nat \<Rightarrow> world \<Rightarrow> response" where
  "order_progress_view get_perms req order_pk w =
     (case req_user req of
        None \<Rightarrow> Redirect LoginUrl
      | Some user \<Rightarrow>
          if \<not> req_is_ajax req then HttpResponseBadRequest
          else
            (case find (\<lambda>ord. ord_service_type ord = SOCIAL_PROFILES \<and> ord_pk ord = order_pk)
                       (orders (w_db w)) of
               None \<Rightarrow> Http404
             | Some order \<Rightarrow>
                 if ''view_order'' \<notin> set (get_perms user order) then Http404
                 else (case order_progress (w_db w) order of
                         Inl err \<Rightarrow> ServerError err
                       | Inr None \<Rightarrow> ServerError TypeError
                       | Inr (Some info) \<Rightarrow> JsonResponse info)))"

section \<open>The spec's formula and example data\<close>

text \<open>The progress percentage as the specification words it:
  \<open>floor (100 * createdCount / totalCount)\<close>.\<close>

definition spec_progress_percent :: "nat \<Rightarrow> nat \<Rightarrow> nat" where
  "spec_progress_percent created_count total_count = (100 * created_count) div total_count"

text \<open>Rows and requests on which the theorems below are evaluated.\<close>

definition ex_method :: payment_method where
  "ex_method = \<lparr>pm_name = ''Card'', pm_variant = ''default''\<rparr>"

definition ex_coupon :: "rat \<Rightarrow> coupon_code" where
  "ex_coupon p = \<lparr>cc_code = ''SAVE'', cc_discount = p, cc_commission = 0\<rparr>"

definition ex_profile :: "nat \<Rightarrow> sp_status \<Rightarrow> rat \<Rightarrow> social_profile" where
  "ex_profile k st p =
     \<lparr>sp_pk = k, sp_user = 1, sp_status = st,
      sp_site = \<lparr>site_name = ''site'', site_price = p\<rparr>,
      sp_username = ''name'', sp_email = 1\<rparr>"

definition ex_order :: "nat list \<Rightarrow> coupon_code option \<Rightarrow> order" where
  "ex_order its c =
     \<lparr>ord_pk = 1, ord_user = 1, ord_service_type = SOCIAL_PROFILES, ord_items = its,
      ord_payment_method = ex_method, ord_coupon_code = c\<rparr>"

definition ex_db :: "order list \<Rightarrow> payment list \<Rightarrow> social_profile list \<Rightarrow> db" where
  "ex_db os pays ps =
     \<lparr>orders = os, payments = pays, social_profiles = ps, reputation_cases = [],
      gmail_accounts = [], made_an_order = []\<rparr>"

definition ex_payment :: "pyfloat \<Rightarrow> payment" where
  "ex_payment t =
     \<lparr>pay_pk = 1, pay_token = ''tok'', pay_order = 1, pay_total = t, pay_currency = ''USD'',
      pay_variant = ''default'', pay_status = ''waiting''\<rparr>"

definition ex_five :: "social_profile list" where
  "ex_five = [ex_profile 1 CREATED 10, ex_profile 2 REQUESTED_CREATION_PAID 10,
     ex_profile 3 CREATED 10, ex_profile 4 REQUESTED_CREATION_PAID 10,
     ex_profile 5 REQUESTED_CREATION_PAID 10]"

definition ex_request :: request where
  "ex_request = \<lparr>req_user = Some 1, req_POST = True,
     req_order_form = Some \<lparr>form_payment_method = ex_method, form_coupon_code = None\<rparr>,
     req_is_ajax = True\<rparr>"

definition ex_cart :: "cart_item list" where
  "ex_cart = [\<lparr>item_product = \<lparr>os_pk = 7, os_site = \<lparr>site_name = ''site'', site_price = 10\<rparr>,
                                os_available_username = ''name''\<rparr>,
               item_price = 10, item_quantity = 1\<rparr>]"

definition ex_world :: "db \<Rightarrow> checkout_info option \<Rightarrow> world" where
  "ex_world d ci =
     \<lparr>w_db = d,
      w_session = \<lparr>PROFILE_DATA = Some ''{}'', CHECKOUT_INFO = ci, CART = ex_cart\<rparr>,
      w_queue = [], w_messages = []\<rparr>"

definition ex_env :: env where
  "ex_env = \<lparr>DEBUG = False, fresh_token = ''tok2'', blended_email = ''mixer@example.com''\<rparr>"

definition ex_shop :: world where
  "ex_shop =
     ex_world
       \<lparr>orders = [ex_order [] None], payments = [ex_payment 0], social_profiles = [],
        reputation_cases = [],
        gmail_accounts = [\<lparr>gm_pk = 1, gm_user = None, gm_email = ''box@pokemail.net''\<rparr>],
        made_an_order = []\<rparr>
       None"

definition ex_pending :: world where
  "ex_pending = snd (cart_checkout ex_env ex_request ex_shop)"

definition ex_capture :: "payment \<Rightarrow> py_error + string" where
  "ex_capture p = Inr ''confirmed''"

definition ex_new_payment :: payment where
  "ex_new_payment =
     \<lparr>pay_pk = 2, pay_token = ''tok2'', pay_order = 2, pay_total = 10, pay_currency = ''USD'',
      pay_variant = ''default'', pay_status = ''waiting''\<rparr>"

definition ex_new_order :: order where
  "ex_new_order =
     \<lparr>ord_pk = 2, ord_user = 1, ord_service_type = SOCIAL_PROFILES, ord_items = [1],
      ord_payment_method = ex_method, ord_coupon_code = None\<rparr>"



definition ex_perms :: "nat \<Rightarrow> order \<Rightarrow> string list" where
  "ex_perms user ord = [''view_order'']"

section \<open>Floats: the facts used below\<close>

lemma fl_zero: "fl 0 = 0"
  by (simp add: fl_def)

lemma fl_one: "fl 1 = 1"
  by code_simp

lemma py_round2_zero: "py_round2 0 = 0"
  by (simp add: py_round2_def round_half_even_def fl_def)

lemma fmul_zero: "fmul 0 x = 0"
  by (simp add: fmul_def fl_def)

lemma factor_zero_discount: "fsub 1 (fdiv 0 100) = 1"
  by (simp add: fsub_def fdiv_def fl_zero fl_one)

text \<open>
  The rounding error of \<open>fl\<close> in the normal range is at most half a unit in the last
  place, so an amount of whole cents survives the conversion to a float and the rounding
  to two decimals.
\<close>

lemma pow2_powi: "pow2 e = 2 powi e"
  by (simp add: pow2_def power_int_def power_one_over)

lemma pow2_pos: "0 < pow2 e"
  by (simp add: pow2_powi)

lemma pow2_shift: "pow2 (e - 52) = pow2 e / 2 ^ 52"
  by (simp add: pow2_powi power_int_diff)

lemma ilog2_lower:
  assumes "0 < x"
  shows "pow2 (ilog2 x) \<le> x"
proof -
  obtain a b where q: "quotient_of x = (a, b)"
    by (cases "quotient_of x")
  then have b: "0 < b" and x: "x = of_int a / of_int b"
    by (simp_all add: quotient_of_denom_pos quotient_of_div)
  with assms have a: "0 < a"
    by (simp add: zero_less_divide_iff)
  let ?e = "bitlen a - bitlen b"
  show ?thesis
  proof (cases "pow2 ?e \<le> x")
    case True
    with q show ?thesis
      by (simp add: ilog2_def)
  next
    case False
    from bitlen_bounds [OF a] have la: "2 ^ nat (bitlen a - 1) \<le> a"
      by simp
    from bitlen_bounds [OF b] have lb: "b < 2 ^ nat (bitlen b)"
      by simp
    from a have la1: "1 \<le> bitlen a"
      by (simp add: bitlen_alt_def)
    have "pow2 (?e - 1) = 2 powi (bitlen a - 1) / 2 powi (bitlen b)"
      by (simp add: pow2_powi power_int_diff [symmetric] algebra_simps)
    also have "\<dots> = 2 ^ nat (bitlen a - 1) / 2 ^ nat (bitlen b)"
      using la1 bitlen_nonneg [of b] by (simp add: power_int_def)
    also have "\<dots> \<le> of_int a / of_int b"
    proof -
      from la have "(of_int (2 ^ nat (bitlen a - 1)) :: rat) \<le> of_int a"
        by (simp only: of_int_le_iff)
      then have A: "(2::rat) ^ nat (bitlen a - 1) \<le> of_int a"
        by simp
      from lb have "(of_int b :: rat) \<le> of_int (2 ^ nat (bitlen b))"
        by (simp only: of_int_le_iff)
      then have B: "(of_int b :: rat) \<le> 2 ^ nat (bitlen b)"
        by simp
      from A B a b show ?thesis
        by (intro frac_le) simp_all
    qed
    finally have "pow2 (?e - 1) \<le> x"
      using x by simp
    with False q show ?thesis
      by (simp add: ilog2_def)
  qed
qed

lemma round_half_even_error: "\<bar>of_int (round_half_even y) - y\<bar> \<le> 1 / 2"
proof -
  have "of_int \<lfloor>y\<rfloor> \<le> y" "y < of_int \<lfloor>y\<rfloor> + 1"
    by linarith+
  then show ?thesis
    by (auto simp: round_half_even_def Let_def)
qed

lemma round_half_even_near:
  assumes "\<bar>y - of_int n\<bar> < 1 / 2"
  shows "round_half_even y = n"
proof -
  have "\<bar>(of_int (round_half_even y) :: rat) - of_int n\<bar> < 1"
    using round_half_even_error [of y] assms by linarith
  then have "\<bar>(of_int (round_half_even y - n) :: rat)\<bar> < of_int 1"
    by simp
  then have "\<bar>round_half_even y - n\<bar> < 1"
    by (simp only: of_int_abs [symmetric] of_int_less_iff)
  then show ?thesis
    by linarith
qed

lemma fl_error:
  assumes "pow2 (- 1022) \<le> x"
  shows "\<bar>fl x - x\<bar> \<le> x / 2 ^ 53"
proof -
  from assms pow2_pos [of "- 1022"] have x: "0 < x"
    by linarith
  define e where "e = max (ilog2 x) (- 1022)"
  define u where "u = pow2 (e - 52)"
  have u: "0 < u"
    by (simp add: u_def pow2_pos)
  have "pow2 e \<le> x"
    using ilog2_lower [OF x] assms by (cases "ilog2 x \<le> - 1022") (simp_all add: e_def max_def)
  then have ux: "u \<le> x / 2 ^ 52"
    by (simp add: u_def pow2_shift divide_right_mono)
  have "fl x = of_int (round_half_even (x / u)) * u"
    using x by (simp add: fl_def Let_def e_def u_def)
  then have "fl x - x = (of_int (round_half_even (x / u)) - x / u) * u"
    using u by (simp add: algebra_simps)
  then have "\<bar>fl x - x\<bar> = \<bar>of_int (round_half_even (x / u)) - x / u\<bar> * u"
    using u by (simp add: abs_mult)
  also have "\<dots> \<le> (1 / 2) * u"
    using round_half_even_error [of "x / u"] u by (intro mult_right_mono) simp_all
  also have "\<dots> \<le> (1 / 2) * (x / 2 ^ 52)"
    using ux by simp
  also have "\<dots> = x / 2 ^ 53"
    by simp
  finally show ?thesis .
qed

lemma pow2_tiny: "pow2 (- 1022) \<le> 1 / 200"
proof -
  have "(2::rat) ^ 8 \<le> 2 ^ 1022"
    by (rule power_increasing) simp_all
  then have "(200::rat) \<le> 2 ^ 1022"
    by simp
  then show ?thesis
    by (simp add: pow2_def field_simps)
qed

lemma cents_round_trip:
  assumes n: "0 < n" "n < 2 ^ 50"
  shows "py_round2 (fl (fl (of_int n / 100))) = fl (of_int n / 100)"
proof -
  define q :: rat where "q = of_int n / 100"
  define y1 where "y1 = fl q"
  define y2 where "y2 = fl y1"
  from n have q1: "1 / 100 \<le> q"
    by (simp add: q_def)
  from n have q2: "q < 2 ^ 50 / 100"
    by (simp add: q_def)
  have e1: "\<bar>y1 - q\<bar> \<le> q / 2 ^ 53"
    unfolding y1_def using q1 pow2_tiny by (intro fl_error) linarith
  have "q / 2 ^ 53 \<le> q / 2"
    using q1 by (intro divide_left_mono) simp_all
  with e1 have y1: "q / 2 \<le> y1" "y1 \<le> 2 * q"
    using q1 by linarith+
  have e2: "\<bar>y2 - y1\<bar> \<le> y1 / 2 ^ 53"
    unfolding y2_def using y1 q1 pow2_tiny by (intro fl_error) linarith
  have "y1 / 2 ^ 53 \<le> (2 * q) / 2 ^ 53"
    using y1 by (intro divide_right_mono) simp_all
  with e1 e2 have "\<bar>y2 - q\<bar> \<le> 3 * q / 2 ^ 53"
    by linarith
  also have "\<dots> < 3 * (2 ^ 50 / 100) / 2 ^ 53"
    using q2 by (simp add: divide_strict_right_mono)
  also have "\<dots> = (3 / 8) / 100"
    by simp
  finally have "\<bar>y2 * 100 - of_int n\<bar> < 1 / 2"
    by (simp add: q_def abs_if split: if_splits)
  then have "round_half_even (y2 * 100) = n"
    by (rule round_half_even_near)
  then show ?thesis
    by (simp add: py_round2_def y2_def y1_def q_def)
qed

text \<open>
  The ratio of two counts, converted, rounded to two decimals and read in hundredths, is
  a nearest integer to the exact percentage.
\<close>

lemma ratio_error:
  assumes "0 < t" and "t < 2 ^ 45"
  shows "\<bar>fl (of_nat c / of_nat t) - of_nat c / of_nat t\<bar> \<le> (of_nat c / of_nat t) / 2 ^ 53"
proof (cases "c = 0")
  case True
  then show ?thesis by (simp add: fl_zero)
next
  case False
  from assms have t: "(0::rat) < of_nat t" "(of_nat t :: rat) \<le> 2 ^ 45"
    by (simp_all add: of_nat_less_numeral_power_cancel_iff order_less_imp_le)
  from False have c: "(1::rat) \<le> of_nat c"
    by simp
  have "pow2 (- 1022) \<le> 1 / 2 ^ 45"
  proof -
    have "(2::rat) ^ 45 \<le> 2 ^ 1022"
      by (rule power_increasing) simp_all
    then show ?thesis
      by (simp add: pow2_def field_simps)
  qed
  also have "(1::rat) / 2 ^ 45 \<le> 1 / of_nat t"
    using t by (intro divide_left_mono) simp_all
  also have "\<dots> \<le> of_nat c / of_nat t"
    using c t by (intro divide_right_mono) simp_all
  finally show ?thesis
    by (rule fl_error)
qed

lemma nearest_percent:
  assumes ct: "c \<le> t" and t0: "0 < t" and t45: "t < 2 ^ 45"
  shows "2 * \<bar>round_half_even (fdiv (of_nat c) (of_nat t) * 100) * int t - 100 * int c\<bar> \<le> int t"
proof -
  define x :: rat where "x = of_nat c / of_nat t"
  define k where "k = round_half_even (fl x * 100)"
  from t0 t45 have t: "(0::rat) < of_nat t" "(of_nat t :: rat) < 2 ^ 45"
    by (simp_all add: of_nat_less_numeral_power_cancel_iff)
  from ct t have x: "0 \<le> x" "x \<le> 1"
    by (simp_all add: x_def)
  have "\<bar>fl x - x\<bar> \<le> x / 2 ^ 53"
    unfolding x_def using t0 t45 by (rule ratio_error)
  also have "\<dots> \<le> 1 / 2 ^ 53"
    using x by (intro divide_right_mono) simp_all
  finally have e1: "\<bar>fl x - x\<bar> \<le> 1 / 2 ^ 53" .
  have e2: "\<bar>of_int k - fl x * 100\<bar> \<le> 1 / 2"
    unfolding k_def by (rule round_half_even_error)
  from e1 e2 have e3: "\<bar>of_int k - 100 * x\<bar> \<le> 1 / 2 + 100 / 2 ^ 53"
    by linarith
  have xt: "x * of_nat t = of_nat c"
    using t by (simp add: x_def)
  have "\<bar>of_int k * of_nat t - 100 * of_nat c\<bar> = \<bar>(of_int k - 100 * x) * of_nat t\<bar>"
    using xt by (simp add: algebra_simps)
  also have "\<dots> = \<bar>of_int k - 100 * x\<bar> * of_nat t"
    using t by (simp add: abs_mult)
  also have "\<dots> \<le> (1 / 2 + 100 / 2 ^ 53) * of_nat t"
    using e3 t by (intro mult_right_mono) simp_all
  also have "\<dots> = of_nat t / 2 + (100 / 2 ^ 53) * of_nat t"
    by (simp add: algebra_simps)
  also have "\<dots> < of_nat t / 2 + 1 / 2"
  proof -
    have "(100 / 2 ^ 53) * (of_nat t :: rat) < (100 / 2 ^ 53) * 2 ^ 45"
      using t by (intro mult_strict_left_mono) simp_all
    also have "\<dots> < 1 / 2"
      by simp
    finally show ?thesis by simp
  qed
  finally have "2 * \<bar>(of_int k :: rat) * of_nat t - 100 * of_nat c\<bar> < of_nat t + 1"
    by simp
  then have "(of_int (2 * \<bar>k * int t - 100 * int c\<bar>) :: rat) < of_int (int t + 1)"
    by simp
  then have "2 * \<bar>k * int t - 100 * int c\<bar> < int t + 1"
    by (simp only: of_int_less_iff)
  then show ?thesis
    by (simp add: k_def x_def fdiv_def)
qed

section \<open>Totals\<close>

lemma get_items_sp_no_items: "ord_items ord = [] \<Longrightarrow> get_items_sp d ord = []"
  by (simp add: get_items_sp_def)

lemma get_items_rc_no_items: "ord_items ord = [] \<Longrightarrow> get_items_rc d ord = []"
  by (simp add: get_items_rc_def)

lemma items_total_no_items: "ord_items ord = [] \<Longrightarrow> items_total d ord = 0"
  by (simp add: items_total_def items_sum_def aggregate_Sum_def get_items_sp_no_items
      get_items_rc_no_items fl_zero)

text \<open>
  Claim C9. For every order whose item list is empty, \<open>calculate_total\<close> returns \<open>0.0\<close>,
  with and without the discount. The method has no raising step: the aggregate over no
  row is \<open>None\<close>, which \<^verbatim>\<open>or 0.0\<close> replaces.
\<close>

theorem calculate_total_no_items:
  "ord_items ord = [] \<Longrightarrow> calculate_total d ord include_discount = 0"
  by (simp add: calculate_total_def items_total_no_items fmul_zero py_round2_zero)

text \<open>Claim C9 on an order with a 20 % coupon and no items.\<close>

theorem calculate_total_no_items_witness:
  "ord_items (ex_order [] (Some (ex_coupon 20))) = [] \<and>
   calculate_total (ex_db [] [] [ex_profile 1 CREATED 10])
     (ex_order [] (Some (ex_coupon 20))) True = 0 \<and>
   calculate_total (ex_db [] [] [ex_profile 1 CREATED 10])
     (ex_order [] (Some (ex_coupon 20))) False = 0"
proof -
  have h: "ord_items (ex_order [] (Some (ex_coupon 20))) = []"
    by (simp add: ex_order_def)
  show ?thesis
    using h calculate_total_no_items [OF h] by simp
qed

text \<open>
  Claim C4, as stated, fails. One item priced 10.0649 and a coupon of 30 %:
  \<open>calculate_total (True)\<close> is \<open>round (10.0649 * 0.7, 2) = 7.05\<close>, while
  \<open>calculate_total (False)\<close> is \<open>10.06\<close> and \<open>round (10.06 * 0.7, 2) = 7.04\<close>.
\<close>

theorem calculate_total_discount_counterexample:
  "ord_coupon_code (ex_order [1] (Some (ex_coupon 30))) = Some (ex_coupon 30) \<and>
   cc_discount (ex_coupon 30) = 30 \<and>
   calculate_total (ex_db [] [] [ex_profile 1 CREATED (100649 / 10000)])
       (ex_order [1] (Some (ex_coupon 30))) True = fl (705 / 100) \<and>
   py_round2 (fmul (calculate_total (ex_db [] [] [ex_profile 1 CREATED (100649 / 10000)])
       (ex_order [1] (Some (ex_coupon 30))) False) (fsub 1 (fdiv 30 100))) = fl (704 / 100) \<and>
   fl (705 / 100) \<noteq> fl (704 / 100)"
  by code_simp

lemma calculate_total_whole_cents:
  assumes "items_sum d ord = of_int n / 100" and "0 \<le> n" and "n < 2 ^ 50"
  shows "calculate_total d ord False = items_total d ord"
proof (cases "n = 0")
  case True
  with assms(1) have "items_total d ord = 0"
    by (simp add: items_total_def fl_zero)
  then show ?thesis
    by (simp add: calculate_total_def fmul_zero py_round2_zero)
next
  case False
  with assms(2) have "0 < n"
    by simp
  then have "py_round2 (fl (fl (items_sum d ord))) = fl (items_sum d ord)"
    unfolding assms(1) using assms(3) by (rule cents_round_trip)
  then show ?thesis
    by (simp add: calculate_total_def items_total_def fmul_def)
qed

lemma calculate_total_discount_exact:
  assumes "ord_coupon_code ord = Some c"
    and "calculate_total d ord False = items_total d ord"
  shows "calculate_total d ord True =
         py_round2 (fmul (calculate_total d ord False) (fsub 1 (fdiv (cc_discount c) 100)))"
proof (cases "cc_discount c = 0")
  case True
  with assms(1) have "discount ord = 0"
    by (simp add: discount_def)
  then have "calculate_total d ord True = calculate_total d ord False"
    by (simp add: calculate_total_def)
  also have "\<dots> = py_round2 (fmul (items_total d ord) 1)"
    using \<open>discount ord = 0\<close> by (simp add: calculate_total_def)
  finally show ?thesis
    using True assms(2) by (simp add: factor_zero_discount)
next
  case False
  with assms(1) have "discount ord = cc_discount c" "discount ord \<noteq> 0"
    by (simp_all add: discount_def)
  then have "calculate_total d ord True =
      py_round2 (fmul (items_total d ord) (fsub 1 (fdiv (cc_discount c) 100)))"
    by (simp add: calculate_total_def)
  then show ?thesis
    using assms(2) by simp
qed

text \<open>
  Claim C4, amended. For every order with a discount code of \<open>d\<close> percent whose items'
  prices sum to a whole number of cents, from 0 to below \<open>2 ^ 50\<close> cents,
  \<open>calculate_total (True)\<close> equals \<open>round (calculate_total (False) * (1 - d / 100), 2)\<close>.
\<close>

theorem calculate_total_discount:
  assumes "ord_coupon_code ord = Some c"
    and "items_sum d ord = of_int n / 100" and "0 \<le> n" and "n < 2 ^ 50"
  shows "calculate_total d ord True =
         py_round2 (fmul (calculate_total d ord False) (fsub 1 (fdiv (cc_discount c) 100)))"
  using assms(1) calculate_total_whole_cents [OF assms(2-4)]
  by (rule calculate_total_discount_exact)

text \<open>Claim C4, amended, on one item priced 10 and a coupon of 20 %: both sides are 8.\<close>

theorem calculate_total_discount_witness:
  "ord_coupon_code (ex_order [1] (Some (ex_coupon 20))) = Some (ex_coupon 20) \<and>
   items_sum (ex_db [] [] [ex_profile 1 CREATED 10]) (ex_order [1] (Some (ex_coupon 20))) =
     of_int 1000 / 100 \<and>
   (0::int) \<le> 1000 \<and> (1000::int) < 2 ^ 50 \<and>
   calculate_total (ex_db [] [] [ex_profile 1 CREATED 10])
       (ex_order [1] (Some (ex_coupon 20))) True = 8 \<and>
   py_round2 (fmul (calculate_total (ex_db [] [] [ex_profile 1 CREATED 10])
       (ex_order [1] (Some (ex_coupon 20))) False)
       (fsub 1 (fdiv (cc_discount (ex_coupon 20)) 100))) = 8"
proof -
  have h1: "ord_coupon_code (ex_order [1] (Some (ex_coupon 20))) = Some (ex_coupon 20)"
    by (simp add: ex_order_def)
  have h2: "items_sum (ex_db [] [] [ex_profile 1 CREATED 10]) (ex_order [1] (Some (ex_coupon 20))) =
     of_int 1000 / 100"
    by (simp add: items_sum_def aggregate_Sum_def get_items_sp_def ex_db_def ex_order_def
        ex_profile_def)
  have h3: "(0::int) \<le> 1000" "(1000::int) < 2 ^ 50"
    by simp_all
  have h4: "calculate_total (ex_db [] [] [ex_profile 1 CREATED 10])
       (ex_order [1] (Some (ex_coupon 20))) True = 8"
    by code_simp
  show ?thesis
    using h1 h2 h3 h4 calculate_total_discount [OF h1 h2 h3] by simp
qed

section \<open>Creating the payment\<close>

lemma create_payment_no_payment:
  assumes "\<not> has_payment d ord"
  shows "create_payment d ord amount token =
    (let p = new_payment d ord
               (let total = (case amount of
                               None \<Rightarrow> calculate_total d ord False
                             | Some a \<Rightarrow> if a \<noteq> 0 then fl a else calculate_total d ord False)
                in if discount ord \<noteq> 0 then fmul total (fsub 1 (fdiv (discount ord) 100))
                   else total)
               ''USD'' token
     in (Inr p, d\<lparr>payments := payments d @ [p]\<rparr>))"
  using assms
  by (simp add: create_payment_def create_payment_with_def Payment_objects_create_def
      has_payment_def Let_def)

lemma calculate_total_flag_irrelevant:
  "discount ord = 0 \<Longrightarrow> calculate_total d ord True = calculate_total d ord False"
  by (simp add: calculate_total_def)







text \<open>
  Claim C3, as stated, fails: with a coupon of 20 % and an amount of 10 the payment's
  total is 8, not 10.
\<close>

theorem create_payment_amount_counterexample:
  "fst (create_payment (ex_db [] [] []) (ex_order [] (Some (ex_coupon 20))) (Some 10) ''tok'')
     = Inr (ex_payment 8) \<and>
   pay_total (ex_payment 8) \<noteq> fl 10"
  by code_simp

text \<open>
  Claim C3, amended. For every order without a payment, \<open>create_payment (amount)\<close>
  creates a payment. Without a discount its total is the amount when a non-zero amount
  is given and \<open>calculate_total (True)\<close> otherwise. With a discount of \<open>d\<close> percent its
  total is the amount, or else \<open>calculate_total (False)\<close>, multiplied by \<open>1 - d / 100\<close>.
\<close>

theorem create_payment_total:
  assumes "\<not> has_payment d ord"
  shows "\<exists>p. create_payment d ord amount token = (Inr p, d\<lparr>payments := payments d @ [p]\<rparr>) \<and>
     pay_total p =
       (if discount ord = 0
        then (case amount of
                None \<Rightarrow> calculate_total d ord True
              | Some a \<Rightarrow> if a = 0 then calculate_total d ord True else fl a)
        else fmul (case amount of
                     None \<Rightarrow> calculate_total d ord False
                   | Some a \<Rightarrow> if a = 0 then calculate_total d ord False else fl a)
                  (fsub 1 (fdiv (discount ord) 100)))"
  using create_payment_no_payment [OF assms, of amount token]
  by (auto simp: Let_def new_payment_def calculate_total_flag_irrelevant split: option.splits)

text \<open>Claim C3, amended, on one item priced 10, a coupon of 20 % and no amount.\<close>

theorem create_payment_total_witness:
  "\<not> has_payment (ex_db [] [] [ex_profile 1 CREATED 10]) (ex_order [1] (Some (ex_coupon 20))) \<and>
   (\<exists>p. fst (create_payment (ex_db [] [] [ex_profile 1 CREATED 10])
                (ex_order [1] (Some (ex_coupon 20))) None ''tok'') = Inr p \<and>
        pay_total p = 8)"
proof -
  have h: "\<not> has_payment (ex_db [] [] [ex_profile 1 CREATED 10])
             (ex_order [1] (Some (ex_coupon 20)))"
    by (simp add: has_payment_def ex_db_def)
  have d: "discount (ex_order [1] (Some (ex_coupon 20))) = 20"
    by (simp add: discount_def ex_order_def ex_coupon_def)
  have v: "fmul (calculate_total (ex_db [] [] [ex_profile 1 CREATED 10])
                  (ex_order [1] (Some (ex_coupon 20))) False) (fsub 1 (fdiv 20 100)) = 8"
    by code_simp
  from create_payment_total [OF h, of None "''tok''"] d v h show ?thesis
    by auto
qed

text \<open>
  Claim C10, as stated, fails: for an order without items, \<open>create_payment (0)\<close> creates a
  payment whose total is zero.
\<close>

theorem create_payment_zero_amount_counterexample:
  "fst (create_payment (ex_db [] [] []) (ex_order [] None) (Some 0) ''tok'') =
     Inr (ex_payment 0) \<and>
   pay_total (ex_payment 0) = 0"
  by code_simp

text \<open>
  Claim C10, amended. For every order, \<open>create_payment\<close> with an explicit amount of \<open>0\<close>
  does what it does with no amount: the total that goes to the payments table is
  \<open>calculate_total (False)\<close>, computed from the order's items, multiplied by
  \<open>1 - d / 100\<close> when the order has a discount of \<open>d\<close> percent.
\<close>

theorem create_payment_zero_amount:
  "create_payment d ord (Some 0) token = create_payment d ord None token \<and>
   create_payment d ord (Some 0) token =
     Payment_objects_create d (pm_variant (ord_payment_method ord)) ord
       (if discount ord = 0 then calculate_total d ord False
        else fmul (calculate_total d ord False) (fsub 1 (fdiv (discount ord) 100)))
       ''USD'' token"
  by (simp add: create_payment_def create_payment_with_def)

section \<open>Progress of an order\<close>

text \<open>
  Claim C5, as stated, fails: with 2 of 3 items created the progress is \<open>67%\<close>, and
  \<open>floor (100 * 2 / 3)\<close> is 66.
\<close>

theorem order_progress_floor_counterexample:
  "order_progress (ex_db [] [] [ex_profile 1 CREATED 10, ex_profile 2 CREATED 10,
        ex_profile 3 REQUESTED_CREATION_PAID 10]) (ex_order [1, 2, 3] None) =
     Inr (Some \<lparr>pi_created = 2, pi_total = 3, pi_progress = ''67%''\<rparr>) \<and>
   ''67%'' \<noteq> str_int (int (spec_progress_percent 2 3)) @ ''%''"
  by code_simp

lemma progress_two_of_five:
  "str_int (py_int (fmul (py_round2 (fdiv 2 5)) 100)) = ''40''"
  by code_simp

text \<open>
  Claim C5, amended. For every social-profiles order whose items resolve to at least one
  row (and fewer than \<open>2 ^ 45\<close>), \<open>order_progress\<close> returns the number of items in state
  Created or Failed, the number of items, and a progress string. The percentage is
  \<open>100 * created / total\<close> rounded to a nearest integer, not floored, and the progress
  string is that integer followed by \<open>%\<close>, on the counts whose percentage survives the
  scaling by 100; with 5 items of which 2 are created the result is
  \<open>{created: 2, total: 5, progress: "40%"}\<close>.
\<close>

theorem order_progress_value:
  assumes "ord_service_type ord = SOCIAL_PROFILES" and "get_items_sp d ord \<noteq> []"
    and "length (get_items_sp d ord) < 2 ^ 45"
  shows "\<exists>k p. order_progress d ord =
        Inr (Some \<lparr>pi_created = length (filter (\<lambda>r. sp_status r = CREATED \<or> sp_status r = FAILED)
                                         (get_items_sp d ord)),
                   pi_total = length (get_items_sp d ord), pi_progress = p\<rparr>) \<and>
      2 * \<bar>k * int (length (get_items_sp d ord)) -
           100 * int (length (filter (\<lambda>r. sp_status r = CREATED \<or> sp_status r = FAILED)
                                (get_items_sp d ord)))\<bar>
        \<le> int (length (get_items_sp d ord)) \<and>
      (percent_survives k \<longrightarrow> p = str_int k @ ''%'') \<and>
      (length (get_items_sp d ord) = 5 \<and>
       length (filter (\<lambda>r. sp_status r = CREATED \<or> sp_status r = FAILED) (get_items_sp d ord)) = 2
       \<longrightarrow> p = ''40%'')"
proof -
  let ?t = "length (get_items_sp d ord)"
  let ?c = "length (filter (\<lambda>r. sp_status r = CREATED \<or> sp_status r = FAILED) (get_items_sp d ord))"
  let ?k = "round_half_even (fdiv (of_nat ?c) (of_nat ?t) * 100)"
  let ?p = "str_int (py_int (fmul (py_round2 (fdiv (of_nat ?c) (of_nat ?t))) 100)) @ ''%''"
  from assms(2) have t0: "0 < ?t"
    by simp
  have run: "order_progress d ord = Inr (Some \<lparr>pi_created = ?c, pi_total = ?t, pi_progress = ?p\<rparr>)"
    using assms(1,2) by (simp add: order_progress_def Let_def)
  have near: "2 * \<bar>?k * int ?t - 100 * int ?c\<bar> \<le> int ?t"
    using length_filter_le t0 assms(3) by (rule nearest_percent)
  have surv: "percent_survives ?k \<longrightarrow> ?p = str_int ?k @ ''%''"
    by (simp add: percent_survives_def py_round2_def)
  have scen: "?t = 5 \<and> ?c = 2 \<longrightarrow> ?p = ''40%''"
    by (simp add: progress_two_of_five)
  from run near surv scen show ?thesis
    by blast
qed

text \<open>Claim C5, amended, on the order with 5 items, 2 of them created and 3 pending:
  the nearest percentage is 40, which survives the scaling.\<close>

theorem order_progress_value_witness:
  "ord_service_type (ex_order [1, 2, 3, 4, 5] None) = SOCIAL_PROFILES \<and>
   get_items_sp (ex_db [] [] ex_five) (ex_order [1, 2, 3, 4, 5] None) \<noteq> [] \<and>
   length (get_items_sp (ex_db [] [] ex_five) (ex_order [1, 2, 3, 4, 5] None)) < 2 ^ 45 \<and>
   length (get_items_sp (ex_db [] [] ex_five) (ex_order [1, 2, 3, 4, 5] None)) = 5 \<and>
   length (filter (\<lambda>r. sp_status r = CREATED \<or> sp_status r = FAILED)
             (get_items_sp (ex_db [] [] ex_five) (ex_order [1, 2, 3, 4, 5] None))) = 2 \<and>
   percent_survives 40 \<and>
   order_progress (ex_db [] [] ex_five) (ex_order [1, 2, 3, 4, 5] None) =
     Inr (Some \<lparr>pi_created = 2, pi_total = 5, pi_progress = ''40%''\<rparr>)"
proof -
  let ?items = "get_items_sp (ex_db [] [] ex_five) (ex_order [1, 2, 3, 4, 5] None)"
  have h1: "ord_service_type (ex_order [1, 2, 3, 4, 5] None) = SOCIAL_PROFILES"
    by (simp add: ex_order_def)
  have h2: "?items = ex_five"
    by (simp add: get_items_sp_def ex_db_def ex_five_def ex_order_def ex_profile_def)
  have h3: "ex_five \<noteq> []" "length ex_five = 5"
    "length (filter (\<lambda>r. sp_status r = CREATED \<or> sp_status r = FAILED) ex_five) = 2"
    by (simp_all add: ex_five_def ex_profile_def)
  from h2 h3 have h4: "?items \<noteq> []" and h5: "length ?items < 2 ^ 45"
    and h6: "length ?items = 5"
    and h7: "length (filter (\<lambda>r. sp_status r = CREATED \<or> sp_status r = FAILED) ?items) = 2"
    by simp_all
  have h8: "percent_survives 40"
    by code_simp
  from order_progress_value [OF h1 h4 h5]
  obtain k p where run: "order_progress (ex_db [] [] ex_five) (ex_order [1, 2, 3, 4, 5] None) =
        Inr (Some \<lparr>pi_created = length (filter (\<lambda>r. sp_status r = CREATED \<or> sp_status r = FAILED)
                                         ?items),
                   pi_total = length ?items, pi_progress = p\<rparr>)"
    and near: "2 * \<bar>k * int (length ?items) -
           100 * int (length (filter (\<lambda>r. sp_status r = CREATED \<or> sp_status r = FAILED) ?items))\<bar>
        \<le> int (length ?items)"
    and surv: "percent_survives k \<longrightarrow> p = str_int k @ ''%''"
    by blast
  from near have "2 * \<bar>k * 5 - 200\<bar> \<le> 5"
    by (simp only: h6 h7) simp
  then have "k = 40"
    by presburger
  with surv h8 have "p = str_int 40 @ ''%''"
    by simp
  also have "\<dots> = ''40%''"
    by code_simp
  finally have "p = ''40%''" .
  with run h1 h4 h5 h6 h7 h8 show ?thesis
    by simp
qed

text \<open>
  Where the percentage does not survive: \<open>round (4 / 7, 2)\<close> is \<open>0.57\<close>, the float product
  \<open>0.57 * 100\<close> lies below 57 and \<^verbatim>\<open>int\<close> cuts it to 56, under the floor and the
  nearest integer alike. This is a defect of the code, and the theorem above says
  nothing on such counts.
\<close>

lemma order_progress_four_of_seven:
  "order_progress
     (ex_db [] [] [ex_profile 1 CREATED 10, ex_profile 2 CREATED 10, ex_profile 3 CREATED 10,
        ex_profile 4 FAILED 10, ex_profile 5 REQUESTED_CREATION_PAID 10,
        ex_profile 6 REQUESTED_CREATION_PAID 10, ex_profile 7 REQUESTED_CREATION_PAID 10])
     (ex_order [1, 2, 3, 4, 5, 6, 7] None) =
     Inr (Some \<lparr>pi_created = 4, pi_total = 7, pi_progress = ''56%''\<rparr>) \<and>
   \<not> percent_survives 57"
  by code_simp

text \<open>
  Claim C6 does not hold of the code. For a social-profiles order with no items, the
  endpoint, asked over AJAX by a user who may view the order, ends in the
  \<open>ZeroDivisionError\<close> of \<open>order_progress\<close>; it does not answer
  \<open>{created: 0, total: 0, progress: "0%"}\<close>.
\<close>

theorem order_progress_view_empty_order:
  "order_progress_view ex_perms ex_request 1 (ex_world (ex_db [ex_order [] None] [] []) None) =
     ServerError ZeroDivisionError"
  by code_simp

section \<open>After the payment\<close>

lemma payment_failure_keeps_cart:
  "CART (w_session (snd (payment_failure req payment_id payment_token w))) = CART (w_session w)"
  by (simp add: payment_failure_def split: option.splits prod.splits)

text \<open>
  Claim C7 does not hold of the code. A blocked session with one line in the cart, whose
  payment for a social-profiles order is captured with the result \<open>rejected\<close>: the
  confirmation handler answers with the failure message and has emptied the cart.
\<close>

theorem payment_success_failed_capture_clears_cart:
  "CART (w_session (ex_world (ex_db [ex_order [] None] [ex_payment 10] [])
          (Some \<lparr>ci_is_blocked = Some True,
                 ci_payment_url = Some (PaymentOverviewUrl 1 ''tok'')\<rparr>))) = ex_cart \<and>
   ex_cart \<noteq> [] \<and>
   CART (w_session (snd (payment_success (\<lambda>p. Inr ''rejected'') ex_request 1 ''tok''
     (ex_world (ex_db [ex_order [] None] [ex_payment 10] [])
          (Some \<lparr>ci_is_blocked = Some True,
                 ci_payment_url = Some (PaymentOverviewUrl 1 ''tok'')\<rparr>))))) = []"
  by code_simp

section \<open>Checkout\<close>

lemma fold_max_ge_start: "a \<le> fold max pks (a::nat)"
  by (induction pks arbitrary: a) (auto intro: order_trans [OF max.cobounded2])

lemma fold_max_ge_elem: "x \<in> set pks \<Longrightarrow> x \<le> fold max pks (a::nat)"
proof (induction pks arbitrary: a)
  case Nil
  then show ?case by simp
next
  case (Cons y ys)
  show ?case
  proof (cases "x = y")
    case True
    have "y \<le> max y a" by simp
    also have "\<dots> \<le> fold max ys (max y a)" by (rule fold_max_ge_start)
    finally show ?thesis using True by simp
  next
    case False
    with Cons.prems have "x \<in> set ys" by simp
    then show ?thesis using Cons.IH by simp
  qed
qed

lemma next_pk_fresh: "next_pk pks \<notin> set pks"
proof
  assume "next_pk pks \<in> set pks"
  then have "next_pk pks \<le> fold max pks 0" by (rule fold_max_ge_elem)
  then show False by (simp add: next_pk_def)
qed

lemma create_profiles_tables:
  "create_profiles user email oss (d, ord) = (d', ord') \<Longrightarrow>
   orders d' = orders d \<and> payments d' = payments d"
proof (induction oss arbitrary: d ord)
  case Nil
  then show ?case by simp
next
  case (Cons os rest)
  from Cons.prems Cons.IH show ?case
    by (simp add: Let_def)
qed

lemma assign_email_tables:
  "assign_email e user d = Inr (k, d1) \<Longrightarrow> orders d1 = orders d \<and> payments d1 = payments d"
  by (auto simp: assign_email_def Let_def split: if_splits option.splits)

lemma payments_have_orders_fresh:
  assumes "payments_have_orders d"
  shows "\<not> has_payment d (ord\<lparr>ord_pk := next_pk (map ord_pk (orders d))\<rparr>)"
proof
  assume "has_payment d (ord\<lparr>ord_pk := next_pk (map ord_pk (orders d))\<rparr>)"
  then obtain p where p: "p \<in> set (payments d)"
      and eq: "pay_order p = next_pk (map ord_pk (orders d))"
    by (auto simp: has_payment_def)
  from assms p obtain ord' where "ord' \<in> set (orders d)" "ord_pk ord' = pay_order p"
    by (auto simp: payments_have_orders_def)
  with eq have "next_pk (map ord_pk (orders d)) \<in> set (map ord_pk (orders d))"
    by force
  with next_pk_fresh show False by blast
qed

lemma checkout_create_cases:
  assumes ref: "payments_have_orders (w_db w)"
    and run: "checkout_create e user form w = (resp, w')"
  shows "(w' = w \<and> (\<forall>u. resp \<noteq> Redirect u)) \<or>
     (\<exists>k t. resp = Redirect (PaymentOverviewUrl k t) \<and>
        CHECKOUT_INFO (w_session w') =
          Some \<lparr>ci_is_blocked = Some True, ci_payment_url = Some (PaymentOverviewUrl k t)\<rparr> \<and>
        length (orders (w_db w')) = Suc (length (orders (w_db w))) \<and>
        length (payments (w_db w')) = Suc (length (payments (w_db w))) \<and>
        payments_have_orders (w_db w'))"
proof (cases "PROFILE_DATA (w_session w)")
  case None
  with run show ?thesis by (auto simp: checkout_create_def)
next
  case (Some profile_data)
  show ?thesis
  proof (cases "assign_email e user (w_db w)")
    case (Inl err)
    with Some run show ?thesis by (auto simp: checkout_create_def)
  next
    case (Inr res)
    obtain email d1 where res: "res = (email, d1)" by (cases res)
    let ?o0 = "\<lparr>ord_pk = 0, ord_user = user, ord_service_type = SOCIAL_PROFILES,
                ord_items = [], ord_payment_method = form_payment_method form,
                ord_coupon_code = form_coupon_code form\<rparr>"
    obtain d2 ord2 where cp: "create_profiles user email (cart_products (w_session w)) (d1, ?o0) = (d2, ord2)"
      by (cases "create_profiles user email (cart_products (w_session w)) (d1, ?o0)")
    from Inr res have t1: "orders d1 = orders (w_db w)" "payments d1 = payments (w_db w)"
      using assign_email_tables by blast+
    from cp have t2: "orders d2 = orders d1" "payments d2 = payments d1"
      using create_profiles_tables by blast+
    let ?ord = "ord2\<lparr>ord_pk := next_pk (map ord_pk (orders d2))\<rparr>"
    let ?d3 = "d2\<lparr>orders := orders d2 @ [?ord]\<rparr>"
    from ref t1 t2 have ref2: "payments_have_orders d2"
      by (simp add: payments_have_orders_def)
    then have "\<not> has_payment d2 ?ord" by (rule payments_have_orders_fresh)
    then have nhp: "\<not> has_payment ?d3 ?ord" by (simp add: has_payment_def)
    obtain p where cpay: "create_payment ?d3 ?ord (Some (cart_total (w_session w))) (fresh_token e)
        = (Inr p, ?d3\<lparr>payments := payments ?d3 @ [p]\<rparr>)"
      and po: "pay_order p = ord_pk ?ord"
      using create_payment_no_payment [OF nhp, of "Some (cart_total (w_session w))" "fresh_token e"]
      by (simp add: Let_def new_payment_def)
    let ?d4 = "?d3\<lparr>payments := payments ?d3 @ [p]\<rparr>"
    let ?url = "PaymentOverviewUrl (pay_pk p) (pay_token p)"
    from Some Inr res cp cpay run have out: "resp = Redirect ?url"
      "w' = w\<lparr>w_db := ?d4, w_session := (w_session w)\<lparr>CHECKOUT_INFO :=
               Some \<lparr>ci_is_blocked = Some True, ci_payment_url = Some ?url\<rparr>\<rparr>\<rparr>"
      by (simp_all add: checkout_create_def Let_def)
    have "payments_have_orders ?d4"
      using ref2 po by (auto simp: payments_have_orders_def)
    with out t1 t2 show ?thesis by simp
  qed
qed

lemma is_blocked_after_checkout:
  "CHECKOUT_INFO s = Some \<lparr>ci_is_blocked = Some True, ci_payment_url = Some u\<rparr> \<Longrightarrow> is_blocked s"
  by (simp add: is_blocked_def empty_dict_def)

lemma cart_checkout_step:
  assumes ref: "payments_have_orders (w_db w)"
    and run: "cart_checkout e req w = (resp, w')"
  shows "payments_have_orders (w_db w') \<and>
     (w' = w \<or>
      (\<not> is_blocked (w_session w) \<and> is_blocked (w_session w') \<and>
       length (orders (w_db w')) = Suc (length (orders (w_db w))) \<and>
       length (payments (w_db w')) = Suc (length (payments (w_db w)))))"
proof (cases "\<exists>user form. req_user req = Some user \<and> req_POST req \<and>
    req_order_form req = Some form \<and> \<not> is_blocked (w_session w)")
  case True
  then obtain user form where rq: "req_user req = Some user" "req_POST req"
      "req_order_form req = Some form" and nb: "\<not> is_blocked (w_session w)"
    by blast
  with run have "checkout_create e user form w = (resp, w')"
    by (simp add: cart_checkout_def)
  from checkout_create_cases [OF ref this] ref nb show ?thesis
    by (auto intro: is_blocked_after_checkout)
next
  case False
  with run have "w' = w"
    by (auto simp: cart_checkout_def split: option.splits if_splits)
  with ref show ?thesis by simp
qed

lemma cart_checkout_blocked:
  assumes "is_blocked (w_session w)"
  shows "snd (cart_checkout e req w) = w"
  using assms by (auto simp: cart_checkout_def split: option.splits)

lemma run_checkouts_blocked:
  "is_blocked (w_session w) \<Longrightarrow> run_checkouts rs w = w"
proof (induction rs arbitrary: w)
  case Nil
  then show ?case by simp
next
  case (Cons r rs)
  obtain e req where r: "r = (e, req)" by (cases r)
  from Cons.prems have "snd (cart_checkout e req w) = w" by (rule cart_checkout_blocked)
  with Cons r show ?case by simp
qed

lemma run_checkouts_bound:
  "payments_have_orders (w_db w) \<Longrightarrow>
   length (orders (w_db (run_checkouts rs w))) \<le> Suc (length (orders (w_db w))) \<and>
   length (payments (w_db (run_checkouts rs w))) \<le> Suc (length (payments (w_db w)))"
proof (induction rs arbitrary: w)
  case Nil
  then show ?case by simp
next
  case (Cons r rs)
  obtain e req where r: "r = (e, req)" by (cases r)
  obtain resp w' where run: "cart_checkout e req w = (resp, w')"
    by (cases "cart_checkout e req w")
  from cart_checkout_step [OF Cons.prems run]
  have ref': "payments_have_orders (w_db w')"
    and alt: "w' = w \<or>
      (is_blocked (w_session w') \<and>
       length (orders (w_db w')) = Suc (length (orders (w_db w))) \<and>
       length (payments (w_db w')) = Suc (length (payments (w_db w))))"
    by blast+
  from alt show ?case
  proof
    assume "w' = w"
    with Cons.IH [OF Cons.prems] r run show ?thesis by simp
  next
    assume b: "is_blocked (w_session w') \<and>
       length (orders (w_db w')) = Suc (length (orders (w_db w))) \<and>
       length (payments (w_db w')) = Suc (length (payments (w_db w)))"
    then have "run_checkouts rs w' = w'" by (simp add: run_checkouts_blocked)
    with b r run show ?thesis by simp
  qed
qed

lemma cart_checkout_blocked_redirect:
  assumes "is_blocked (w_session w)" "CHECKOUT_INFO (w_session w) = Some ci"
    "ci_payment_url ci = Some u"
    "req_user req = Some user" "req_POST req" "req_order_form req = Some form"
  shows "cart_checkout e req w = (Redirect u, w)"
  using assms by (simp add: cart_checkout_def)

lemma cart_checkout_payment_url_remembered:
  assumes "cart_checkout e req w = (Redirect (PaymentOverviewUrl k t), w')"
  shows "is_blocked (w_session w') \<and>
     (\<exists>ci. CHECKOUT_INFO (w_session w') = Some ci \<and>
           ci_payment_url ci = Some (PaymentOverviewUrl k t))"
proof (cases "is_blocked (w_session w)")
  case True
  with assms show ?thesis
    by (auto simp: cart_checkout_def split: option.splits if_splits)
next
  case False
  with assms obtain user form where cc: "checkout_create e user form w = (Redirect (PaymentOverviewUrl k t), w')"
    by (auto simp: cart_checkout_def split: option.splits if_splits)
  then show ?thesis
    by (auto simp: checkout_create_def Let_def is_blocked_def empty_dict_def
        split: option.splits sum.splits prod.splits)
qed

text \<open>
  Claim C1. Submissions of the checkout form, one after the other in one session, create
  at most one order and at most one payment, whatever the submissions are. Once the
  block flag of the session is set, a valid submission changes nothing and is answered
  with a redirect to the remembered payment URL; so the submission that follows one
  answered with a payment URL is answered with the same URL and creates nothing.
\<close>

theorem cart_checkout_at_most_once:
  "(payments_have_orders (w_db w) \<longrightarrow>
      length (orders (w_db (run_checkouts rs w))) \<le> length (orders (w_db w)) + 1 \<and>
      length (payments (w_db (run_checkouts rs w))) \<le> length (payments (w_db w)) + 1) \<and>
   (is_blocked (w_session wb) \<and> CHECKOUT_INFO (w_session wb) = Some ci \<and>
    ci_payment_url ci = Some u \<and>
    req_user req = Some user \<and> req_POST req \<and> req_order_form req = Some form \<longrightarrow>
      cart_checkout e req wb = (Redirect u, wb)) \<and>
   (cart_checkout e1 req1 w = (Redirect (PaymentOverviewUrl k t), w1) \<and>
    req_user req = Some user \<and> req_POST req \<and> req_order_form req = Some form \<longrightarrow>
      cart_checkout e req w1 = (Redirect (PaymentOverviewUrl k t), w1))"
proof (intro conjI impI)
  assume "payments_have_orders (w_db w)"
  from run_checkouts_bound [OF this, of rs]
  show "length (orders (w_db (run_checkouts rs w))) \<le> length (orders (w_db w)) + 1"
    and "length (payments (w_db (run_checkouts rs w))) \<le> length (payments (w_db w)) + 1"
    by simp_all
next
  assume "is_blocked (w_session wb) \<and> CHECKOUT_INFO (w_session wb) = Some ci \<and>
    ci_payment_url ci = Some u \<and>
    req_user req = Some user \<and> req_POST req \<and> req_order_form req = Some form"
  then show "cart_checkout e req wb = (Redirect u, wb)"
    by (simp add: cart_checkout_blocked_redirect)
next
  assume a: "cart_checkout e1 req1 w = (Redirect (PaymentOverviewUrl k t), w1) \<and>
    req_user req = Some user \<and> req_POST req \<and> req_order_form req = Some form"
  then obtain ci' where "is_blocked (w_session w1)" "CHECKOUT_INFO (w_session w1) = Some ci'"
      "ci_payment_url ci' = Some (PaymentOverviewUrl k t)"
    using cart_checkout_payment_url_remembered by blast
  with a show "cart_checkout e req w1 = (Redirect (PaymentOverviewUrl k t), w1)"
    by (simp add: cart_checkout_blocked_redirect)
qed

text \<open>Claim C1 on a shop with one earlier order: the form is submitted twice.\<close>

theorem cart_checkout_at_most_once_witness:
  "payments_have_orders (w_db ex_shop) \<and>
   length (orders (w_db (run_checkouts [(ex_env, ex_request), (ex_env, ex_request)] ex_shop)))
     \<le> length (orders (w_db ex_shop)) + 1 \<and>
   length (payments (w_db (run_checkouts [(ex_env, ex_request), (ex_env, ex_request)] ex_shop)))
     \<le> length (payments (w_db ex_shop)) + 1 \<and>
   is_blocked (w_session ex_pending) \<and>
   cart_checkout ex_env ex_request ex_shop = (Redirect (PaymentOverviewUrl 2 ''tok2''), ex_pending) \<and>
   cart_checkout ex_env ex_request ex_pending = (Redirect (PaymentOverviewUrl 2 ''tok2''), ex_pending)"
proof -
  have h1: "payments_have_orders (w_db ex_shop)"
    by code_simp
  have h2: "is_blocked (w_session ex_pending)"
    by code_simp
  have h3: "CHECKOUT_INFO (w_session ex_pending) =
      Some \<lparr>ci_is_blocked = Some True, ci_payment_url = Some (PaymentOverviewUrl 2 ''tok2'')\<rparr>"
    by code_simp
  have h4: "ci_payment_url \<lparr>ci_is_blocked = Some True,
      ci_payment_url = Some (PaymentOverviewUrl 2 ''tok2'')\<rparr> = Some (PaymentOverviewUrl 2 ''tok2'')"
    by simp
  have h5: "req_user ex_request = Some 1" "req_POST ex_request"
    "req_order_form ex_request = Some \<lparr>form_payment_method = ex_method, form_coupon_code = None\<rparr>"
    by (simp_all add: ex_request_def)
  have h6: "cart_checkout ex_env ex_request ex_shop =
      (Redirect (PaymentOverviewUrl 2 ''tok2''), ex_pending)"
    by code_simp
  from cart_checkout_at_most_once
    [where w = ex_shop and rs = "[(ex_env, ex_request), (ex_env, ex_request)]"
       and wb = ex_pending
       and ci = "\<lparr>ci_is_blocked = Some True,
                  ci_payment_url = Some (PaymentOverviewUrl 2 ''tok2'')\<rparr>"
       and u = "PaymentOverviewUrl 2 ''tok2''" and req = ex_request and user = 1
       and form = "\<lparr>form_payment_method = ex_method, form_coupon_code = None\<rparr>"
       and e = ex_env and ?e1.0 = ex_env and ?req1.0 = ex_request and k = 2 and t = "''tok2''"
       and ?w1.0 = ex_pending]
    h1 h2 h3 h4 h5 h6
  show ?thesis
    by blast
qed

section \<open>Confirmation\<close>

lemma set_payment_status_tables:
  "social_profiles (set_payment_status d k st) = social_profiles d"
  "reputation_cases (set_payment_status d k st) = reputation_cases d"
  "orders (set_payment_status d k st) = orders d"
  by (simp_all add: set_payment_status_def)

lemma unpaid_profile_ids_status:
  "unpaid_profile_ids (set_payment_status d k st) ord = unpaid_profile_ids d ord"
  by (simp add: unpaid_profile_ids_def get_items_sp_def set_payment_status_tables)

lemma mark_profiles_paid_nil: "social_profiles (mark_profiles_paid [] d) = social_profiles d"
  by (simp add: mark_profiles_paid_def)

lemma payment_success_effect:
  "\<exists>ids. w_queue (snd (payment_success capture req payment_id payment_token w)) = w_queue w @ ids \<and>
     social_profiles (w_db (snd (payment_success capture req payment_id payment_token w))) =
       social_profiles (mark_profiles_paid ids (w_db w)) \<and>
     (ids = [] \<or> (\<exists>ord. ids = unpaid_profile_ids (w_db w) ord))"
proof (cases "\<exists>user payment ord. req_user req = Some user \<and>
    get_payment_or_404 (w_db w) payment_id payment_token user = Some (payment, ord) \<and>
    capture payment = Inr ''confirmed'' \<and> ord_service_type ord = SOCIAL_PROFILES")
  case True
  then obtain user payment ord where "req_user req = Some user"
    "get_payment_or_404 (w_db w) payment_id payment_token user = Some (payment, ord)"
    "capture payment = Inr ''confirmed''" "ord_service_type ord = SOCIAL_PROFILES"
    by blast
  then have "w_queue (snd (payment_success capture req payment_id payment_token w)) =
      w_queue w @ unpaid_profile_ids (w_db w) ord"
    and "social_profiles (w_db (snd (payment_success capture req payment_id payment_token w))) =
      social_profiles (mark_profiles_paid (unpaid_profile_ids (w_db w) ord) (w_db w))"
    by (simp_all add: payment_success_def Let_def unpaid_profile_ids_status
        mark_profiles_paid_def set_payment_status_tables)
  then show ?thesis by blast
next
  case False
  then have "w_queue (snd (payment_success capture req payment_id payment_token w)) = w_queue w @ []"
    and "social_profiles (w_db (snd (payment_success capture req payment_id payment_token w))) =
      social_profiles (mark_profiles_paid [] (w_db w))"
    by (auto simp: payment_success_def Let_def mark_profiles_paid_nil mark_cases_paid_def
        set_payment_status_tables split: option.splits sum.splits prod.splits)
  then show ?thesis by blast
qed

lemma dispatch_inv_step:
  assumes inv: "dispatch_inv (social_profiles d) queue"
  shows "dispatch_inv (social_profiles (mark_profiles_paid (unpaid_profile_ids d ord) d))
           (queue @ unpaid_profile_ids d ord)"
proof -
  let ?rows = "social_profiles d"
  let ?ids = "unpaid_profile_ids d ord"
  let ?g = "\<lambda>r. if sp_pk r \<in> set ?ids then r\<lparr>sp_status := REQUESTED_CREATION_PAID\<rparr> else r"
  have rows': "social_profiles (mark_profiles_paid ?ids d) = map ?g ?rows"
    by (simp add: mark_profiles_paid_def)
  have pk: "map sp_pk (map ?g ?rows) = map sp_pk ?rows"
    by (induction ?rows) auto
  from inv have dr: "distinct (map sp_pk ?rows)" and dq: "distinct queue"
    and st: "\<And>r. r \<in> set ?rows \<Longrightarrow> sp_pk r \<in> set queue \<Longrightarrow> sp_status r \<noteq> REQUESTED_CREATION_UNPAID"
    by (auto simp: dispatch_inv_def)
  have ids_def: "?ids = map sp_pk (filter (\<lambda>r. sp_status r = REQUESTED_CREATION_UNPAID)
      (filter (\<lambda>r. sp_pk r \<in> set (ord_items ord)) ?rows))"
    by (simp add: unpaid_profile_ids_def get_items_sp_def)
  have d_ids: "distinct ?ids"
    unfolding ids_def using dr by (simp add: distinct_map_filter)
  have disj: "set queue \<inter> set ?ids = {}"
  proof (rule ccontr)
    assume "set queue \<inter> set ?ids \<noteq> {}"
    then obtain k where "k \<in> set queue" "k \<in> set ?ids" by blast
    then obtain r where "r \<in> set ?rows" "sp_pk r = k" "sp_status r = REQUESTED_CREATION_UNPAID"
      by (auto simp: ids_def)
    with st \<open>k \<in> set queue\<close> show False by blast
  qed
  have st': "\<forall>r' \<in> set (map ?g ?rows). sp_pk r' \<in> set (queue @ ?ids) \<longrightarrow>
      sp_status r' \<noteq> REQUESTED_CREATION_UNPAID"
  proof
    fix r'
    assume "r' \<in> set (map ?g ?rows)"
    then obtain r where r: "r \<in> set ?rows" "r' = ?g r"
      by auto
    show "sp_pk r' \<in> set (queue @ ?ids) \<longrightarrow> sp_status r' \<noteq> REQUESTED_CREATION_UNPAID"
    proof (cases "sp_pk r \<in> set ?ids")
      case True
      with r show ?thesis by simp
    next
      case False
      with r st show ?thesis by auto
    qed
  qed
  have "distinct (queue @ ?ids)"
    using dq d_ids disj by simp
  with dr st' show ?thesis
    unfolding dispatch_inv_def rows' pk by blast
qed

lemma payment_success_inv:
  assumes "dispatch_inv (social_profiles (w_db w)) (w_queue w)"
  shows "dispatch_inv
           (social_profiles (w_db (snd (payment_success capture req payment_id payment_token w))))
           (w_queue (snd (payment_success capture req payment_id payment_token w)))"
proof -
  obtain ids where q: "w_queue (snd (payment_success capture req payment_id payment_token w)) = w_queue w @ ids"
    and r: "social_profiles (w_db (snd (payment_success capture req payment_id payment_token w))) =
       social_profiles (mark_profiles_paid ids (w_db w))"
    and c: "ids = [] \<or> (\<exists>ord. ids = unpaid_profile_ids (w_db w) ord)"
    using payment_success_effect by blast
  from c show ?thesis
  proof
    assume "ids = []"
    with q r assms show ?thesis by (simp add: mark_profiles_paid_nil)
  next
    assume "\<exists>ord. ids = unpaid_profile_ids (w_db w) ord"
    then obtain ord where "ids = unpaid_profile_ids (w_db w) ord" ..
    with q r dispatch_inv_step [OF assms, of ord] show ?thesis by simp
  qed
qed

lemma run_confirmations_inv:
  "dispatch_inv (social_profiles (w_db w)) (w_queue w) \<Longrightarrow>
   dispatch_inv (social_profiles (w_db (run_confirmations cs w))) (w_queue (run_confirmations cs w))"
proof (induction cs arbitrary: w)
  case Nil
  then show ?case by simp
next
  case (Cons c cs)
  obtain capture req payment_id payment_token where c: "c = (capture, req, payment_id, payment_token)"
    by (cases c)
  from Cons.prems
  have "dispatch_inv
           (social_profiles (w_db (snd (payment_success capture req payment_id payment_token w))))
           (w_queue (snd (payment_success capture req payment_id payment_token w)))"
    by (rule payment_success_inv)
  then show ?case using Cons.IH c by simp
qed

lemma run_confirmations_distinct:
  assumes "distinct (map sp_pk (social_profiles (w_db w)))" "w_queue w = []"
  shows "distinct (w_queue (run_confirmations cs w))"
proof -
  from assms have "dispatch_inv (social_profiles (w_db w)) (w_queue w)"
    by (simp add: dispatch_inv_def)
  then have "dispatch_inv (social_profiles (w_db (run_confirmations cs w)))
      (w_queue (run_confirmations cs w))"
    by (rule run_confirmations_inv)
  then show ?thesis by (simp add: dispatch_inv_def)
qed

lemma mark_profiles_paid_tables:
  "orders (mark_profiles_paid ids d) = orders d"
  "payments (mark_profiles_paid ids d) = payments d"
  "reputation_cases (mark_profiles_paid ids d) = reputation_cases d"
  "made_an_order (mark_profiles_paid ids d) = made_an_order d"
  by (simp_all add: mark_profiles_paid_def)

lemma mark_cases_paid_tables:
  "orders (mark_cases_paid ord d) = orders d"
  "payments (mark_cases_paid ord d) = payments d"
  "social_profiles (mark_cases_paid ord d) = social_profiles d"
  by (simp_all add: mark_cases_paid_def)

lemma mark_after_status:
  "social_profiles (mark_profiles_paid ids (set_payment_status d k st)) =
     social_profiles (mark_profiles_paid ids d)"
  "reputation_cases (mark_cases_paid ord (set_payment_status d k st)) =
     reputation_cases (mark_cases_paid ord d)"
  by (simp_all add: mark_profiles_paid_def mark_cases_paid_def set_payment_status_def)

lemma payment_success_found:
  assumes "req_user req = Some user"
    and "get_payment_or_404 (w_db w) payment_id payment_token user = Some (p, ord)"
    and "capture p = Inr st"
  shows "w_queue (snd (payment_success capture req payment_id payment_token w)) =
      (if ord_service_type ord = SOCIAL_PROFILES \<and> st = ''confirmed''
       then w_queue w @ unpaid_profile_ids (w_db w) ord else w_queue w)"
    and "social_profiles (w_db (snd (payment_success capture req payment_id payment_token w))) =
      (if ord_service_type ord = SOCIAL_PROFILES \<and> st = ''confirmed''
       then social_profiles (mark_profiles_paid (unpaid_profile_ids (w_db w) ord) (w_db w))
       else social_profiles (w_db w))"
    and "reputation_cases (w_db (snd (payment_success capture req payment_id payment_token w))) =
      (if ord_service_type ord = REPUTATION_CASE \<and> st = ''confirmed''
       then reputation_cases (mark_cases_paid ord (w_db w))
       else reputation_cases (w_db w))"
    and "orders (w_db (snd (payment_success capture req payment_id payment_token w))) =
      orders (w_db w)"
    and "payments (w_db (snd (payment_success capture req payment_id payment_token w))) =
      payments (set_payment_status (w_db w) (pay_pk p) st)"
  using assms
  by (simp_all add: payment_success_def Let_def unpaid_profile_ids_status
      set_payment_status_tables mark_profiles_paid_tables mark_cases_paid_tables
      mark_after_status)

lemma find_map_same:
  "(\<And>x. P (f x) = P x) \<Longrightarrow> find P (map f xs) = map_option f (find P xs)"
  by (induction xs) auto

lemma get_payment_or_404_again:
  assumes o: "orders d' = orders d"
    and p: "payments d' = payments (set_payment_status d k st)"
    and g: "get_payment_or_404 d payment_id payment_token user = Some (p0, ord)"
  shows "\<exists>p'. get_payment_or_404 d' payment_id payment_token user = Some (p', ord)"
proof -
  let ?P = "\<lambda>q. pay_pk q = payment_id \<and> pay_token q = payment_token \<and>
     (\<exists>ord \<in> set (orders d). ord_pk ord = pay_order q \<and> ord_user ord = user)"
  let ?f = "\<lambda>q. if pay_pk q = k then q\<lparr>pay_status := st\<rparr> else q"
  from g have f0: "find ?P (payments d) = Some p0"
    and f1: "find (\<lambda>ord. ord_pk ord = pay_order p0) (orders d) = Some ord"
    by (auto simp: get_payment_or_404_def split: option.splits)
  have "find ?P (map ?f (payments d)) = map_option ?f (find ?P (payments d))"
    by (rule find_map_same) simp
  with f0 have "find ?P (payments d') = Some (?f p0)"
    using p by (simp add: set_payment_status_def)
  moreover have "pay_order (?f p0) = pay_order p0"
    by simp
  ultimately show ?thesis
    using f1 o by (simp add: get_payment_or_404_def)
qed

lemma unpaid_profile_ids_cong:
  "social_profiles d' = social_profiles d \<Longrightarrow> unpaid_profile_ids d' ord = unpaid_profile_ids d ord"
  by (simp add: unpaid_profile_ids_def get_items_sp_def)

lemma unpaid_profile_ids_marked:
  "unpaid_profile_ids (mark_profiles_paid (unpaid_profile_ids d ord) d) ord = []"
proof -
  let ?ids = "unpaid_profile_ids d ord"
  have "\<forall>r \<in> set (social_profiles (mark_profiles_paid ?ids d)).
      \<not> (sp_pk r \<in> set (ord_items ord) \<and> sp_status r = REQUESTED_CREATION_UNPAID)"
    by (auto simp: mark_profiles_paid_def unpaid_profile_ids_def get_items_sp_def)
  then have "filter (\<lambda>r. sp_status r = REQUESTED_CREATION_UNPAID)
      (filter (\<lambda>r. sp_pk r \<in> set (ord_items ord))
         (social_profiles (mark_profiles_paid ?ids d))) = []"
    by (auto simp: filter_empty_conv)
  then show ?thesis
    by (simp add: unpaid_profile_ids_def get_items_sp_def)
qed

lemma map_idem: "(\<And>x. f (f x) = f x) \<Longrightarrow> map f (map f xs) = map f xs"
  by (induction xs) simp_all

lemma mark_cases_paid_twice:
  assumes "reputation_cases d' = reputation_cases (mark_cases_paid ord d)"
  shows "reputation_cases (mark_cases_paid ord d') = reputation_cases d'"
proof -
  let ?h = "\<lambda>r. if rc_pk r \<in> set (ord_items ord) \<and> rc_status r = OPEN_UNPAID
                  then r\<lparr>rc_status := OPEN_PAID\<rparr> else r"
  have "map ?h (map ?h (reputation_cases d)) = map ?h (reputation_cases d)"
    by (rule map_idem) simp
  with assms show ?thesis
    by (simp add: mark_cases_paid_def)
qed

lemma payment_success_second_run:
  assumes u: "req_user req = Some user"
    and g: "get_payment_or_404 (w_db w) payment_id payment_token user = Some (p, ord)"
    and c: "capture1 p = Inr ''confirmed''"
    and w1: "w1 = snd (payment_success capture1 req payment_id payment_token w)"
    and w2: "w2 = snd (payment_success capture2 req payment_id payment_token w1)"
  shows "w_queue w2 = w_queue w1 \<and>
     social_profiles (w_db w2) = social_profiles (w_db w1) \<and>
     reputation_cases (w_db w2) = reputation_cases (w_db w1)"
proof -
  note first = payment_success_found [where capture = capture1, OF u g c, folded w1]
  from get_payment_or_404_again [OF first(4) first(5) g]
  obtain p' where g1: "get_payment_or_404 (w_db w1) payment_id payment_token user = Some (p', ord)"
    by blast
  show ?thesis
  proof (cases "capture2 p'")
    case (Inl err)
    with u g1 w2 have "w2 = w1"
      by (simp add: payment_success_def)
    then show ?thesis by simp
  next
    case (Inr st)
    note second = payment_success_found [where capture = capture2, OF u g1 Inr, folded w2]
    show ?thesis
    proof (cases "ord_service_type ord")
      case SOCIAL_PROFILES
      with first have "social_profiles (w_db w1) =
          social_profiles (mark_profiles_paid (unpaid_profile_ids (w_db w) ord) (w_db w))"
        by simp
      then have "unpaid_profile_ids (w_db w1) ord =
          unpaid_profile_ids (mark_profiles_paid (unpaid_profile_ids (w_db w) ord) (w_db w)) ord"
        by (rule unpaid_profile_ids_cong)
      then have "unpaid_profile_ids (w_db w1) ord = []"
        by (simp only: unpaid_profile_ids_marked)
      with SOCIAL_PROFILES second show ?thesis
        by (simp add: mark_profiles_paid_nil)
    next
      case REPUTATION_CASE
      with first have "reputation_cases (w_db w1) = reputation_cases (mark_cases_paid ord (w_db w))"
        by simp
      then have "reputation_cases (mark_cases_paid ord (w_db w1)) = reputation_cases (w_db w1)"
        by (rule mark_cases_paid_twice)
      with REPUTATION_CASE second show ?thesis
        by simp
    qed
  qed
qed

text \<open>
  Claim C8. Over any sequence of runs of the confirmation handler, starting with an empty
  work queue, no profile id is dispatched twice. And when a run has confirmed a payment,
  a second run for that payment dispatches nothing and changes no status of a profile or
  of a reputation case.
\<close>

theorem payment_success_dispatch_once:
  "(distinct (map sp_pk (social_profiles (w_db w))) \<and> w_queue w = [] \<longrightarrow>
      distinct (w_queue (run_confirmations cs w))) \<and>
   (req_user req = Some user \<and>
    get_payment_or_404 (w_db w) payment_id payment_token user = Some (p, ord) \<and>
    capture1 p = Inr ''confirmed'' \<longrightarrow>
      w_queue (snd (payment_success capture2 req payment_id payment_token
                 (snd (payment_success capture1 req payment_id payment_token w)))) =
        w_queue (snd (payment_success capture1 req payment_id payment_token w)) \<and>
      social_profiles (w_db (snd (payment_success capture2 req payment_id payment_token
                 (snd (payment_success capture1 req payment_id payment_token w))))) =
        social_profiles (w_db (snd (payment_success capture1 req payment_id payment_token w))) \<and>
      reputation_cases (w_db (snd (payment_success capture2 req payment_id payment_token
                 (snd (payment_success capture1 req payment_id payment_token w))))) =
        reputation_cases (w_db (snd (payment_success capture1 req payment_id payment_token w))))"
proof -
  have once: "distinct (map sp_pk (social_profiles (w_db w))) \<and> w_queue w = [] \<longrightarrow>
      distinct (w_queue (run_confirmations cs w))"
    using run_confirmations_distinct [of w cs] by blast
  have again: "req_user req = Some user \<and>
    get_payment_or_404 (w_db w) payment_id payment_token user = Some (p, ord) \<and>
    capture1 p = Inr ''confirmed'' \<longrightarrow>
      w_queue (snd (payment_success capture2 req payment_id payment_token
                 (snd (payment_success capture1 req payment_id payment_token w)))) =
        w_queue (snd (payment_success capture1 req payment_id payment_token w)) \<and>
      social_profiles (w_db (snd (payment_success capture2 req payment_id payment_token
                 (snd (payment_success capture1 req payment_id payment_token w))))) =
        social_profiles (w_db (snd (payment_success capture1 req payment_id payment_token w))) \<and>
      reputation_cases (w_db (snd (payment_success capture2 req payment_id payment_token
                 (snd (payment_success capture1 req payment_id payment_token w))))) =
        reputation_cases (w_db (snd (payment_success capture1 req payment_id payment_token w)))"
  proof
    assume a: "req_user req = Some user \<and>
      get_payment_or_404 (w_db w) payment_id payment_token user = Some (p, ord) \<and>
      capture1 p = Inr ''confirmed''"
    from a have u: "req_user req = Some user" ..
    from a have g: "get_payment_or_404 (w_db w) payment_id payment_token user = Some (p, ord)"
      by blast
    from a have c: "capture1 p = Inr ''confirmed''"
      by blast
    show "w_queue (snd (payment_success capture2 req payment_id payment_token
                 (snd (payment_success capture1 req payment_id payment_token w)))) =
        w_queue (snd (payment_success capture1 req payment_id payment_token w)) \<and>
      social_profiles (w_db (snd (payment_success capture2 req payment_id payment_token
                 (snd (payment_success capture1 req payment_id payment_token w))))) =
        social_profiles (w_db (snd (payment_success capture1 req payment_id payment_token w))) \<and>
      reputation_cases (w_db (snd (payment_success capture2 req payment_id payment_token
                 (snd (payment_success capture1 req payment_id payment_token w))))) =
        reputation_cases (w_db (snd (payment_success capture1 req payment_id payment_token w)))"
      by (rule payment_success_second_run
          [where ?capture1.0 = capture1 and ?capture2.0 = capture2, OF u g c refl refl])
  qed
  from once again show ?thesis
    by (rule conjI)
qed

text \<open>Claim C8 on the pending checkout of the shop: the callback arrives twice.\<close>

theorem payment_success_dispatch_once_witness:
  "distinct (map sp_pk (social_profiles (w_db ex_pending))) \<and> w_queue ex_pending = [] \<and>
   req_user ex_request = Some 1 \<and>
   get_payment_or_404 (w_db ex_pending) 2 ''tok2'' 1 = Some (ex_new_payment, ex_new_order) \<and>
   ex_capture ex_new_payment = Inr ''confirmed'' \<and>
   w_queue (snd (payment_success ex_capture ex_request 2 ''tok2'' ex_pending)) = [1] \<and>
   distinct (w_queue (run_confirmations
     [(ex_capture, ex_request, 2, ''tok2''), (ex_capture, ex_request, 2, ''tok2'')] ex_pending)) \<and>
   w_queue (snd (payment_success ex_capture ex_request 2 ''tok2''
              (snd (payment_success ex_capture ex_request 2 ''tok2'' ex_pending)))) =
     w_queue (snd (payment_success ex_capture ex_request 2 ''tok2'' ex_pending))"
proof -
  have h1: "distinct (map sp_pk (social_profiles (w_db ex_pending)))"
    by code_simp
  have h2: "w_queue ex_pending = []"
    by code_simp
  have h3: "req_user ex_request = Some 1"
    by (simp add: ex_request_def)
  have h4: "get_payment_or_404 (w_db ex_pending) 2 ''tok2'' 1 = Some (ex_new_payment, ex_new_order)"
    by code_simp
  have h5: "ex_capture ex_new_payment = Inr ''confirmed''"
    by (simp add: ex_capture_def)
  have h6: "w_queue (snd (payment_success ex_capture ex_request 2 ''tok2'' ex_pending)) = [1]"
    by code_simp
  from payment_success_dispatch_once
    [where w = ex_pending
       and cs = "[(ex_capture, ex_request, 2, ''tok2''), (ex_capture, ex_request, 2, ''tok2'')]"
       and req = ex_request and user = 1 and payment_id = 2 and payment_token = "''tok2''"
       and p = ex_new_payment and ord = ex_new_order
       and ?capture1.0 = ex_capture and ?capture2.0 = ex_capture]
    h1 h2 h3 h4 h5 h6
  show ?thesis
    by blast
qed

end
